theory Spec2Isabelle
  imports Main "HOL-Library.Sublist"
begin

section \<open>The Codex executor of codex-a2a\<close>

text \<open>
  A shallow embedding of \<^verbatim>\<open>CodexExecutor\<close> (codex-executor.ts) and of the default
  configuration (config.ts). The executor object is a record of its four private
  collections; everything it does to the outside world (publishing on an event bus,
  signalling that a bus is finished, asking the Codex client for a thread, starting a
  streamed run) is appended to a log of effects, in the order the statements run.

  Conventions of the model:
  \<^item> a JavaScript string is a \<open>string\<close>, one \<open>char\<close> per UTF-16 code unit (code units
    above 255 are not represented); \<open>s.slice(n)\<close> is \<open>drop n s\<close>, \<open>s.length\<close> is
    \<open>length s\<close>;
  \<^item> \<open>undefined\<close> is \<open>None\<close>; a value is falsy when it is \<open>None\<close> or the empty string;
  \<^item> objects with identity (event buses, threads) are natural numbers; the n-th call of
    \<open>startThread\<close> returns thread n;
  \<^item> \<open>crypto.randomUUID()\<close>, \<open>process.cwd()\<close>, \<open>JSON.stringify\<close> and \<open>String\<close> are
    parameters of the environment;
  \<^item> time stamps and the calls of the logger are left out;
  \<^item> \<open>execute\<close> is suspended while it waits for the next event of the stream; what
    arrives there is either that event or a call of \<open>cancelTask\<close>, which runs to its
    end before \<open>execute\<close> resumes (JavaScript runs one callback at a time). Two calls of
    \<open>execute\<close> are not interleaved, and a stream is a finite list of events that does
    not throw.
\<close>

subsection \<open>Values, configuration\<close>

datatype jsval =
    JNull
  | JBool bool
  | JNum int
  | JStr string
  | JArr "jsval list"
  | JObj "(string \<times> jsval) list"

datatype CodexSandboxMode = ReadOnly | WorkspaceWrite | DangerFullAccess
datatype CodexApprovalPolicy = Untrusted | OnFailure | OnRequest | Never
datatype CodexReasoningEffort = Minimal | Low | Medium | High

record CodexConfig =
  model :: string
  maxTokens :: int
  autoApprove :: bool
  sandboxMode :: CodexSandboxMode
  writableRoots :: "string list"
  networkAccess :: bool
  approvalPolicy :: CodexApprovalPolicy
  webSearchEnabled :: bool
  reasoningEffort :: CodexReasoningEffort
  workingDirectory :: "string option"

text \<open>\<open>Partial<CodexConfig>\<close>: \<open>None\<close> is a key that is not there. The working
  directory may also be there with the value \<open>undefined\<close> (\<open>Some None\<close>).\<close>

record PartialCodexConfig =
  p_model :: "string option"
  p_maxTokens :: "int option"
  p_autoApprove :: "bool option"
  p_sandboxMode :: "CodexSandboxMode option"
  p_writableRoots :: "string list option"
  p_networkAccess :: "bool option"
  p_approvalPolicy :: "CodexApprovalPolicy option"
  p_webSearchEnabled :: "bool option"
  p_reasoningEffort :: "CodexReasoningEffort option"
  p_workingDirectory :: "string option option"

definition DEFAULT_CODEX_CONFIG :: CodexConfig where
  "DEFAULT_CODEX_CONFIG =
     \<lparr> model = ''gpt-5-codex'', maxTokens = 4096, autoApprove = False,
       sandboxMode = WorkspaceWrite, writableRoots = [], networkAccess = True,
       approvalPolicy = OnFailure, webSearchEnabled = True, reasoningEffort = Medium,
       workingDirectory = Some [] \<rparr>"

definition no_overrides :: PartialCodexConfig where
  "no_overrides =
     \<lparr> p_model = None, p_maxTokens = None, p_autoApprove = None, p_sandboxMode = None,
       p_writableRoots = None, p_networkAccess = None, p_approvalPolicy = None,
       p_webSearchEnabled = None, p_reasoningEffort = None, p_workingDirectory = None \<rparr>"

record ThreadOptions =
  skipGitRepoCheck :: bool
  o_webSearchEnabled :: bool
  networkAccessEnabled :: bool
  webSearchMode :: string
  o_workingDirectory :: "string option"
  o_sandboxMode :: CodexSandboxMode
  o_approvalPolicy :: CodexApprovalPolicy

text \<open>The options of the executor's constructor and the platform functions it calls.
  \<open>randomUUID n\<close> is what the n-th call of \<open>crypto.randomUUID()\<close> returns;
  \<open>JSON_stringify v = None\<close> when \<open>JSON.stringify(v, null, 2)\<close> throws.\<close>

record env =
  getConfig :: "string \<Rightarrow> PartialCodexConfig"
  getWorkingDirectory :: "(string \<Rightarrow> string option) option"
  cwd :: string
  randomUUID :: "nat \<Rightarrow> string"
  JSON_stringify :: "jsval \<Rightarrow> string option"
  String_of :: "jsval \<Rightarrow> string"

subsection \<open>The backend's events\<close>

text \<open>\<open>ThreadItem\<close>, one constructor per \<open>item.type\<close> the executor reads, with the
  fields it reads, the item id first.\<close>

datatype thread_item =
    AgentMessage string string
  | Reasoning string string
  | CommandExecution string string string "int option" string
      \<comment> \<open>id, command, aggregated_output, exit_code, status\<close>
  | FileChange string jsval string
      \<comment> \<open>id, changes, status\<close>
  | McpToolCall string string string jsval "jsval option" "string option" string
      \<comment> \<open>id, server, tool, arguments, result, error (its message), status\<close>
  | WebSearch string string
      \<comment> \<open>id, query\<close>
  | TodoList string jsval
      \<comment> \<open>id, items\<close>
  | ErrorItem string string
      \<comment> \<open>id, message\<close>
  | OtherItem string

datatype item_phase = ItemStarted | ItemUpdated | ItemCompleted

datatype thread_event =
    TurnStarted
  | TurnCompleted jsval
  | TurnFailed string
  | ItemEvent item_phase thread_item
  | OtherEvent

text \<open>What reaches the executor while \<open>execute\<close> waits for the stream.\<close>

datatype arrival = Event thread_event | CancelCall string nat

subsection \<open>The task protocol\<close>

datatype task_state = Submitted | Working | Completed | Failed | Canceled

text \<open>The \<open>data\<close> records the executor publishes. Each constructor is one object
  literal of the source; \<open>request.callId\<close> comes first, \<open>request.name\<close> is the item type.\<close>

datatype data_payload =
    ThoughtData string
      \<comment> \<open>\<open>{ text }\<close>\<close>
  | CommandStarted string string string
      \<comment> \<open>callId, status, command\<close>
  | CommandFinished string string string "int option"
      \<comment> \<open>callId, status, command, exitCode\<close>
  | FileChangeUpdate string string jsval
      \<comment> \<open>callId, status, changes\<close>
  | McpStarted string string string string jsval
      \<comment> \<open>callId, status, server, tool, arguments\<close>
  | McpFailed string string
      \<comment> \<open>callId, error; status \<open>'failed'\<close>\<close>
  | McpCompleted string jsval
      \<comment> \<open>callId, result (also as output); status \<open>'completed'\<close>\<close>
  | WebSearchUpdate string string
      \<comment> \<open>callId, query; status \<open>'completed'\<close>\<close>
  | TodoListUpdate string jsval
      \<comment> \<open>callId, items; status \<open>'updated'\<close>\<close>
  | RawData jsval

datatype part = TextPart string | DataPart data_payload | FilePart jsval

datatype role = User | Agent

record message =
  msg_role :: role
  messageId :: string
  msg_taskId :: "string option"
  msg_contextId :: "string option"
  parts :: "part list"

record a2a_task =
  t_id :: string
  t_contextId :: string
  t_state :: task_state
  t_history :: "message list"

record status_update =
  su_taskId :: string
  su_contextId :: string
  su_state :: task_state
  su_message :: "message option"
  su_final :: bool
  su_kind :: "string option"
    \<comment> \<open>\<open>metadata.codexAgent.kind\<close>\<close>

record artifact_update =
  au_taskId :: string
  au_contextId :: string
  artifactId :: string
  au_text :: string
  au_append :: bool
  lastChunk :: bool

datatype published =
    PTask a2a_task
  | PStatus status_update
  | PArtifact artifact_update

datatype effect =
    Publish nat published
  | Finished nat
  | StartThread ThreadOptions nat
  | RunStreamed nat string

record request_context =
  rc_taskId :: string
  rc_contextId :: string
  userMessage :: message
  rc_task :: "a2a_task option"

subsection \<open>The executor\<close>

text \<open>The four collections of the executor object, then the world it acts on: how many
  UUIDs have been drawn, how many threads have been started, and the log of effects.\<close>

record executor =
  threads :: "string \<rightharpoonup> nat"
  threadWorkingDirs :: "string \<rightharpoonup> string"
  canceledTasks :: "string set"
  taskContexts :: "string \<rightharpoonup> string"
  uuid_count :: nat
  thread_count :: nat
  effects :: "effect list"

definition new_executor :: executor where
  "new_executor =
     \<lparr> threads = Map.empty, threadWorkingDirs = Map.empty, canceledTasks = {},
       taskContexts = Map.empty, uuid_count = 0, thread_count = 0, effects = [] \<rparr>"

text \<open>The two maps of one call of \<open>execute\<close>.\<close>

record bookkeeping =
  sentTextLengths :: "string \<rightharpoonup> nat"
  sentItemStates :: "string \<rightharpoonup> string"

definition no_bookkeeping :: bookkeeping where
  "no_bookkeeping = \<lparr> sentTextLengths = Map.empty, sentItemStates = Map.empty \<rparr>"

definition publish :: "nat \<Rightarrow> published \<Rightarrow> executor \<Rightarrow> executor" where
  "publish bus ev st = st\<lparr>effects := effects st @ [Publish bus ev]\<rparr>"

definition finished :: "nat \<Rightarrow> executor \<Rightarrow> executor" where
  "finished bus st = st\<lparr>effects := effects st @ [Finished bus]\<rparr>"

definition next_uuid :: "env \<Rightarrow> executor \<Rightarrow> string \<times> executor" where
  "next_uuid e st = (randomUUID e (uuid_count st), st\<lparr>uuid_count := Suc (uuid_count st)\<rparr>)"

definition startThread :: "ThreadOptions \<Rightarrow> executor \<Rightarrow> nat \<times> executor" where
  "startThread opts st =
     (thread_count st,
      st\<lparr>thread_count := Suc (thread_count st),
         effects := effects st @ [StartThread opts (thread_count st)]\<rparr>)"

definition runStreamed :: "nat \<Rightarrow> string \<Rightarrow> executor \<Rightarrow> executor" where
  "runStreamed th txt st = st\<lparr>effects := effects st @ [RunStreamed th txt]\<rparr>"

text \<open>Truthiness of a string that may be \<open>undefined\<close>, and of a value.\<close>

definition truthy :: "string option \<Rightarrow> bool" where
  "truthy v = (case v of None \<Rightarrow> False | Some s \<Rightarrow> s \<noteq> [])"

fun js_truthy :: "jsval \<Rightarrow> bool" where
  "js_truthy JNull = False"
| "js_truthy (JBool b) = b"
| "js_truthy (JNum n) = (n \<noteq> 0)"
| "js_truthy (JStr s) = (s \<noteq> [])"
| "js_truthy (JArr xs) = True"
| "js_truthy (JObj members) = True"

definition publishStatus ::
  "nat \<Rightarrow> string \<Rightarrow> string \<Rightarrow> task_state \<Rightarrow> bool \<Rightarrow> message option \<Rightarrow> string option
     \<Rightarrow> executor \<Rightarrow> executor" where
  "publishStatus bus taskId contextId state final msg codexAgentKind st =
     publish bus
       (PStatus \<lparr> su_taskId = taskId, su_contextId = contextId, su_state = state,
                  su_message = msg, su_final = final,
                  su_kind = (if truthy codexAgentKind then codexAgentKind else None) \<rparr>)
       st"

definition agent_message :: "string \<Rightarrow> string \<Rightarrow> string \<Rightarrow> part \<Rightarrow> message" where
  "agent_message mid taskId contextId p =
     \<lparr> msg_role = Agent, messageId = mid, msg_taskId = Some taskId,
       msg_contextId = Some contextId, parts = [p] \<rparr>"

definition publishTextContent ::
  "env \<Rightarrow> nat \<Rightarrow> string \<Rightarrow> string \<Rightarrow> string \<Rightarrow> executor \<Rightarrow> executor" where
  "publishTextContent e bus taskId contextId txt st =
     (case next_uuid e st of (mid, st1) \<Rightarrow>
        publishStatus bus taskId contextId Working False
          (Some (agent_message mid taskId contextId (TextPart txt))) (Some ''text-content'') st1)"

definition publishThought ::
  "env \<Rightarrow> nat \<Rightarrow> string \<Rightarrow> string \<Rightarrow> string \<Rightarrow> executor \<Rightarrow> executor" where
  "publishThought e bus taskId contextId txt st =
     (case next_uuid e st of (mid, st1) \<Rightarrow>
        publishStatus bus taskId contextId Working False
          (Some (agent_message mid taskId contextId (DataPart (ThoughtData txt))))
          (Some ''thought'') st1)"

definition publishToolUpdate ::
  "env \<Rightarrow> nat \<Rightarrow> string \<Rightarrow> string \<Rightarrow> data_payload \<Rightarrow> executor \<Rightarrow> executor" where
  "publishToolUpdate e bus taskId contextId d st =
     (case next_uuid e st of (mid, st1) \<Rightarrow>
        publishStatus bus taskId contextId Working False
          (Some (agent_message mid taskId contextId (DataPart d)))
          (Some ''tool-call-update'') st1)"

definition publishToolOutput ::
  "nat \<Rightarrow> string \<Rightarrow> string \<Rightarrow> string \<Rightarrow> string \<Rightarrow> bool \<Rightarrow> bool \<Rightarrow> executor \<Rightarrow> executor" where
  "publishToolOutput bus taskId contextId callId output app lst st =
     publish bus
       (PArtifact \<lparr> au_taskId = taskId, au_contextId = contextId,
                    artifactId = ''tool-'' @ callId @ ''-output'', au_text = output,
                    au_append = app, lastChunk = lst \<rparr>)
       st"

text \<open>\<open>stringifyToolOutput\<close> of a value that is there (\<open>undefined\<close> gives the empty
  string and is never passed by the executor's own calls).\<close>

definition stringifyToolOutput :: "env \<Rightarrow> jsval \<Rightarrow> string" where
  "stringifyToolOutput e v =
     (case v of
        JNull \<Rightarrow> []
      | JStr s \<Rightarrow> s
      | _ \<Rightarrow> (case JSON_stringify e v of Some s \<Rightarrow> s | None \<Rightarrow> String_of e v))"

definition publishFailure ::
  "env \<Rightarrow> nat \<Rightarrow> string \<Rightarrow> string \<Rightarrow> string \<Rightarrow> executor \<Rightarrow> executor" where
  "publishFailure e bus taskId contextId errorMessage st =
     (case next_uuid e st of (mid, st1) \<Rightarrow>
        finished bus
          (publishStatus bus taskId contextId Failed True
             (Some (agent_message mid taskId contextId (TextPart (''Error: '' @ errorMessage))))
             (Some ''state-change'') st1))"

definition publishCanceled ::
  "env \<Rightarrow> nat \<Rightarrow> string \<Rightarrow> string option \<Rightarrow> executor \<Rightarrow> executor" where
  "publishCanceled e bus taskId contextId st =
     (case next_uuid e st of (mid, st1) \<Rightarrow>
      case (case contextId of Some c \<Rightarrow> (c, st1) | None \<Rightarrow> next_uuid e st1) of (cid, st2) \<Rightarrow>
        (let st3 = publishStatus bus taskId cid Canceled True
                     (Some (agent_message mid taskId cid (TextPart ''Task canceled.'')))
                     (Some ''state-change'') st2
         in st3\<lparr>canceledTasks := canceledTasks st3 - {taskId},
                taskContexts := (taskContexts st3)(taskId := None)\<rparr>))"

definition cancelTask :: "env \<Rightarrow> string \<Rightarrow> nat \<Rightarrow> executor \<Rightarrow> executor" where
  "cancelTask e taskId bus st =
     (let st1 = st\<lparr>canceledTasks := insert taskId (canceledTasks st)\<rparr>;
          contextId = taskContexts st1 taskId
      in finished bus (publishCanceled e bus taskId contextId st1))"

subsection \<open>Configuration and working directory\<close>

definition resolveConfig :: "env \<Rightarrow> string \<Rightarrow> CodexConfig" where
  "resolveConfig e contextId =
     (let d = DEFAULT_CODEX_CONFIG; p = getConfig e contextId in
      \<lparr> model = (case p_model p of Some v \<Rightarrow> v | None \<Rightarrow> model d),
        maxTokens = (case p_maxTokens p of Some v \<Rightarrow> v | None \<Rightarrow> maxTokens d),
        autoApprove = (case p_autoApprove p of Some v \<Rightarrow> v | None \<Rightarrow> autoApprove d),
        sandboxMode = (case p_sandboxMode p of Some v \<Rightarrow> v | None \<Rightarrow> sandboxMode d),
        writableRoots = (case p_writableRoots p of Some v \<Rightarrow> v | None \<Rightarrow> writableRoots d),
        networkAccess = (case p_networkAccess p of Some v \<Rightarrow> v | None \<Rightarrow> networkAccess d),
        approvalPolicy = (case p_approvalPolicy p of Some v \<Rightarrow> v | None \<Rightarrow> approvalPolicy d),
        webSearchEnabled =
          (case p_webSearchEnabled p of Some v \<Rightarrow> v | None \<Rightarrow> webSearchEnabled d),
        reasoningEffort =
          (case p_reasoningEffort p of Some v \<Rightarrow> v | None \<Rightarrow> reasoningEffort d),
        workingDirectory =
          (case p_workingDirectory p of Some v \<Rightarrow> v | None \<Rightarrow> workingDirectory d) \<rparr>)"

text \<open>The white space and line terminators of ECMAScript among the code units below 256:
  TAB, LF, VT, FF, CR, SP and NBSP.\<close>

definition is_ws :: "char \<Rightarrow> bool" where
  "is_ws c = (c \<in> {CHR 0x09, CHR 0x0A, CHR 0x0B, CHR 0x0C, CHR 0x0D, CHR 0x20, CHR 0xA0})"

definition trim :: "string \<Rightarrow> string" where
  "trim s = rev (dropWhile is_ws (rev (dropWhile is_ws s)))"

definition normalizeWorkingDirectory :: "string option \<Rightarrow> string option" where
  "normalizeWorkingDirectory wd =
     (case wd of
        None \<Rightarrow> None
      | Some s \<Rightarrow>
          if s = [] then None
          else (let trimmed = trim s in if length trimmed > 0 then Some trimmed else None))"

text \<open>\<open>a || b\<close> on values that are a string or \<open>undefined\<close>.\<close>

definition or_else :: "string option \<Rightarrow> string option \<Rightarrow> string option" where
  "or_else a b = (if truthy a then a else b)"

definition workingDir_of :: "env \<Rightarrow> string \<Rightarrow> string option" where
  "workingDir_of e contextId =
     (let config = resolveConfig e contextId;
          workingDirOverride =
            (case getWorkingDirectory e of None \<Rightarrow> None | Some f \<Rightarrow> f contextId)
      in or_else workingDirOverride (normalizeWorkingDirectory (workingDirectory config)))"

definition currentWorkingDir :: "env \<Rightarrow> string \<Rightarrow> string" where
  "currentWorkingDir e contextId =
     (case workingDir_of e contextId of
        None \<Rightarrow> cwd e
      | Some w \<Rightarrow> if w \<noteq> [] then w else cwd e)"

definition threadKey :: "env \<Rightarrow> string \<Rightarrow> string" where
  "threadKey e contextId = contextId @ '':'' @ currentWorkingDir e contextId"

subsection \<open>The translation of one event\<close>

text \<open>The case \<open>agent_message\<close> / \<open>reasoning\<close> of the switch.\<close>

definition text_item ::
  "env \<Rightarrow> nat \<Rightarrow> string \<Rightarrow> string \<Rightarrow> bool \<Rightarrow> string \<Rightarrow> string
     \<Rightarrow> bookkeeping \<times> executor \<Rightarrow> bookkeeping \<times> executor" where
  "text_item e bus taskId contextId is_reasoning item_id txt s =
     (case s of (bk, st) \<Rightarrow>
        if txt \<noteq> [] then
          (let prevLength = (case sentTextLengths bk item_id of Some n \<Rightarrow> n | None \<Rightarrow> 0);
               deltaText = drop prevLength txt
           in if length deltaText > 0 then
                (bk\<lparr>sentTextLengths := (sentTextLengths bk)(item_id \<mapsto> length txt)\<rparr>,
                 if is_reasoning then publishThought e bus taskId contextId deltaText st
                 else publishTextContent e bus taskId contextId deltaText st)
              else (bk, st))
        else (bk, st))"

fun handle_item ::
  "env \<Rightarrow> nat \<Rightarrow> string \<Rightarrow> string \<Rightarrow> bool \<Rightarrow> thread_item
     \<Rightarrow> bookkeeping \<times> executor \<Rightarrow> bookkeeping \<times> executor" where
  "handle_item e bus taskId contextId isCompleted (AgentMessage i txt) s =
     text_item e bus taskId contextId False i txt s"
| "handle_item e bus taskId contextId isCompleted (Reasoning i txt) s =
     text_item e bus taskId contextId True i txt s"
| "handle_item e bus taskId contextId isCompleted
     (CommandExecution i command aggregated_output exit_code status) s =
     (case s of (bk, st) \<Rightarrow>
      let stateKey = i @ '':state'';
          outputKey = i @ '':output'';
          lastState = sentItemStates bk stateKey
      in
      case (if \<not> truthy lastState then
              (bk\<lparr>sentItemStates := (sentItemStates bk)(stateKey \<mapsto> ''started'')\<rparr>,
               publishToolUpdate e bus taskId contextId (CommandStarted i status command) st)
            else (bk, st)) of (bk1, st1) \<Rightarrow>
      case (if aggregated_output \<noteq> [] then
              (let prevLength = (case sentTextLengths bk1 outputKey of Some n \<Rightarrow> n | None \<Rightarrow> 0);
                   deltaOutput = drop prevLength aggregated_output
               in if length deltaOutput > 0 then
                    (bk1\<lparr>sentTextLengths :=
                           (sentTextLengths bk1)(outputKey \<mapsto> length aggregated_output)\<rparr>,
                     publishToolOutput bus taskId contextId i deltaOutput True isCompleted st1)
                  else (bk1, st1))
            else (bk1, st1)) of (bk2, st2) \<Rightarrow>
      if isCompleted \<and> lastState \<noteq> Some ''completed'' then
        (bk2\<lparr>sentItemStates := (sentItemStates bk2)(stateKey \<mapsto> ''completed'')\<rparr>,
         publishToolUpdate e bus taskId contextId (CommandFinished i status command exit_code) st2)
      else (bk2, st2))"
| "handle_item e bus taskId contextId isCompleted (FileChange i changes status) s =
     (case s of (bk, st) \<Rightarrow>
      if isCompleted then
        (bk,
         publishToolUpdate e bus taskId contextId (FileChangeUpdate i status changes)
           (publishToolOutput bus taskId contextId i
              (stringifyToolOutput e (JObj [(''changes'', changes)])) False True st))
      else (bk, st))"
| "handle_item e bus taskId contextId isCompleted
     (McpToolCall i server tool arguments result err status) s =
     (case s of (bk, st) \<Rightarrow>
      let stateKey = i @ '':state'';
          lastState = sentItemStates bk stateKey
      in
      case (if \<not> truthy lastState then
              (bk\<lparr>sentItemStates := (sentItemStates bk)(stateKey \<mapsto> ''started'')\<rparr>,
               publishToolUpdate e bus taskId contextId
                 (McpStarted i status server tool arguments) st)
            else (bk, st)) of (bk1, st1) \<Rightarrow>
      if isCompleted \<and> lastState \<noteq> Some ''completed'' then
        (bk1\<lparr>sentItemStates := (sentItemStates bk1)(stateKey \<mapsto> ''completed'')\<rparr>,
         case err of
           Some msg \<Rightarrow> publishToolUpdate e bus taskId contextId (McpFailed i msg) st1
         | None \<Rightarrow>
             (case result of
                Some r \<Rightarrow>
                  if js_truthy r then
                    publishToolUpdate e bus taskId contextId (McpCompleted i r)
                      (publishToolOutput bus taskId contextId i (stringifyToolOutput e r)
                         False True st1)
                  else st1
              | None \<Rightarrow> st1))
      else (bk1, st1))"
| "handle_item e bus taskId contextId isCompleted (WebSearch i query) s =
     (case s of (bk, st) \<Rightarrow>
        (bk, publishToolUpdate e bus taskId contextId (WebSearchUpdate i query) st))"
| "handle_item e bus taskId contextId isCompleted (TodoList i items) s =
     (case s of (bk, st) \<Rightarrow>
        (bk,
         publishToolUpdate e bus taskId contextId (TodoListUpdate i items)
           (publishToolOutput bus taskId contextId i
              (stringifyToolOutput e (JObj [(''items'', items)])) False True st)))"
| "handle_item e bus taskId contextId isCompleted (ErrorItem i msg) s =
     (case s of (bk, st) \<Rightarrow>
        (bk, publishTextContent e bus taskId contextId (''Error: '' @ msg) st))"
| "handle_item e bus taskId contextId isCompleted (OtherItem i) s = s"

text \<open>One pass through the body of the loop: it either returns from \<open>execute\<close> or goes
  on to the next event.\<close>

datatype outcome = Return executor | Continue bookkeeping executor

definition loop_body ::
  "env \<Rightarrow> nat \<Rightarrow> string \<Rightarrow> string \<Rightarrow> thread_event \<Rightarrow> bookkeeping \<Rightarrow> executor \<Rightarrow> outcome" where
  "loop_body e bus taskId contextId ev bk st =
     (if taskId \<in> canceledTasks st then Return (publishCanceled e bus taskId (Some contextId) st)
      else
        (case ev of
           TurnStarted \<Rightarrow>
             Continue bk
               (publishStatus bus taskId contextId Working False None (Some ''turn-started'') st)
         | TurnCompleted usage \<Rightarrow>
             Continue bk
               (publishStatus bus taskId contextId Working False None (Some ''turn-completed'')
                  (publishToolOutput bus taskId contextId ''turn-usage''
                     (stringifyToolOutput e (JObj [(''usage'', usage)])) False True st))
         | TurnFailed msg \<Rightarrow> Return (publishFailure e bus taskId contextId msg st)
         | ItemEvent ph item \<Rightarrow>
             (case handle_item e bus taskId contextId (ph = ItemCompleted) item (bk, st) of
                (bk', st') \<Rightarrow> Continue bk' st')
         | OtherEvent \<Rightarrow> Continue bk st))"

subsection \<open>execute\<close>

fun consume ::
  "env \<Rightarrow> nat \<Rightarrow> string \<Rightarrow> string \<Rightarrow> arrival list \<Rightarrow> bookkeeping \<Rightarrow> executor \<Rightarrow> executor" where
  "consume e bus taskId contextId [] bk st =
     finished bus
       (publishStatus bus taskId contextId Completed True None (Some ''state-change'') st)"
| "consume e bus taskId contextId (CancelCall t b # rest) bk st =
     consume e bus taskId contextId rest bk (cancelTask e t b st)"
| "consume e bus taskId contextId (Event ev # rest) bk st =
     (case loop_body e bus taskId contextId ev bk st of
        Return st' \<Rightarrow> st'
      | Continue bk' st' \<Rightarrow> consume e bus taskId contextId rest bk' st')"

fun text_parts :: "part list \<Rightarrow> string list" where
  "text_parts [] = []"
| "text_parts (TextPart t # ps) = t # text_parts ps"
| "text_parts (p # ps) = text_parts ps"

fun join :: "string \<Rightarrow> string list \<Rightarrow> string" where
  "join sep [] = []"
| "join sep [x] = x"
| "join sep (x # y # ys) = x @ sep @ join sep (y # ys)"

definition extract_text :: "message \<Rightarrow> string" where
  "extract_text m = join [CHR 0x0A] (text_parts (parts m))"

text \<open>Lines 69 to 102: the cached thread of the context, or a new one.\<close>

definition acquire_thread :: "env \<Rightarrow> string \<Rightarrow> executor \<Rightarrow> nat \<times> executor" where
  "acquire_thread e contextId st =
     (let thread = threads st contextId;
          config = resolveConfig e contextId;
          workingDir = workingDir_of e contextId;
          existingThreadKey = threadKey e contextId;
          cachedThreadKey = threadWorkingDirs st contextId;
          stale = (thread \<noteq> None \<and> cachedThreadKey \<noteq> Some existingThreadKey);
          st1 = (if stale then st\<lparr>threads := (threads st)(contextId := None)\<rparr> else st)
      in case (if stale then None else thread) of
           Some th \<Rightarrow> (th, st1)
         | None \<Rightarrow>
             (case startThread
                     \<lparr> skipGitRepoCheck = True,
                       o_webSearchEnabled = webSearchEnabled config,
                       networkAccessEnabled = networkAccess config,
                       webSearchMode = ''live'',
                       o_workingDirectory = or_else workingDir None,
                       o_sandboxMode = sandboxMode config,
                       o_approvalPolicy =
                         (if approvalPolicy config = Never then Never
                          else approvalPolicy config) \<rparr>
                     st1 of
                (th, st2) \<Rightarrow>
                  (th,
                   st2\<lparr>threads := (threads st2)(contextId \<mapsto> th),
                       threadWorkingDirs :=
                         (threadWorkingDirs st2)(contextId \<mapsto> existingThreadKey)\<rparr>)))"

text \<open>Lines 37 to 106: what \<open>execute\<close> does before the loop. It returns early for a
  task that is marked canceled and for an input without text; otherwise the loop starts
  with two empty maps.\<close>

definition start_run :: "env \<Rightarrow> request_context \<Rightarrow> nat \<Rightarrow> executor \<Rightarrow> outcome" where
  "start_run e rc bus st0 =
     (let taskId = rc_taskId rc;
          contextId = rc_contextId rc;
          st1 = st0\<lparr>taskContexts := (taskContexts st0)(taskId \<mapsto> contextId)\<rparr>;
          st2 = (case rc_task rc of
                   None \<Rightarrow>
                     publish bus
                       (PTask \<lparr> t_id = taskId, t_contextId = contextId, t_state = Submitted,
                                t_history = [userMessage rc] \<rparr>)
                       st1
                 | Some _ \<Rightarrow> st1);
          st3 = publishStatus bus taskId contextId Working False None (Some ''state-change'') st2
      in if taskId \<in> canceledTasks st3
         then Return (publishCanceled e bus taskId (Some contextId) st3)
         else
           (let txt = extract_text (userMessage rc) in
            if txt = [] then Return (publishFailure e bus taskId contextId ''No text content'' st3)
            else
              (case acquire_thread e contextId st3 of
                 (thread, st4) \<Rightarrow> Continue no_bookkeeping (runStreamed thread txt st4))))"

definition execute ::
  "env \<Rightarrow> request_context \<Rightarrow> nat \<Rightarrow> arrival list \<Rightarrow> executor \<Rightarrow> executor" where
  "execute e rc bus arrivals st0 =
     (case start_run e rc bus st0 of
        Return st \<Rightarrow> st
      | Continue bk st \<Rightarrow> consume e bus (rc_taskId rc) (rc_contextId rc) arrivals bk st)"

section \<open>Observations\<close>

text \<open>Functions that read a log of effects, the shapes of the status updates the
  executor publishes, and the inputs of the examples.\<close>

definition new_effects :: "executor \<Rightarrow> executor \<Rightarrow> effect list" where
  "new_effects st st' = drop (length (effects st)) (effects st')"

definition working_update :: "string \<Rightarrow> string \<Rightarrow> string \<Rightarrow> status_update" where
  "working_update taskId contextId kind =
     \<lparr> su_taskId = taskId, su_contextId = contextId, su_state = Working,
       su_message = None, su_final = False, su_kind = Some kind \<rparr>"

definition message_update :: "string \<Rightarrow> string \<Rightarrow> string \<Rightarrow> part \<Rightarrow> string \<Rightarrow> status_update" where
  "message_update mid taskId contextId p kind =
     \<lparr> su_taskId = taskId, su_contextId = contextId, su_state = Working,
       su_message = Some (agent_message mid taskId contextId p),
       su_final = False, su_kind = Some kind \<rparr>"

definition completed_update :: "string \<Rightarrow> string \<Rightarrow> status_update" where
  "completed_update taskId contextId =
     \<lparr> su_taskId = taskId, su_contextId = contextId, su_state = Completed,
       su_message = None, su_final = True, su_kind = Some ''state-change'' \<rparr>"

definition failed_update :: "string \<Rightarrow> string \<Rightarrow> string \<Rightarrow> string \<Rightarrow> status_update" where
  "failed_update mid taskId contextId txt =
     \<lparr> su_taskId = taskId, su_contextId = contextId, su_state = Failed,
       su_message = Some (agent_message mid taskId contextId (TextPart txt)),
       su_final = True, su_kind = Some ''state-change'' \<rparr>"

definition canceled_update :: "string \<Rightarrow> string \<Rightarrow> string \<Rightarrow> status_update" where
  "canceled_update mid taskId contextId =
     \<lparr> su_taskId = taskId, su_contextId = contextId, su_state = Canceled,
       su_message = Some (agent_message mid taskId contextId (TextPart ''Task canceled.'')),
       su_final = True, su_kind = Some ''state-change'' \<rparr>"

definition submitted_task :: "request_context \<Rightarrow> a2a_task" where
  "submitted_task rc =
     \<lparr> t_id = rc_taskId rc, t_contextId = rc_contextId rc, t_state = Submitted,
       t_history = [userMessage rc] \<rparr>"

text \<open>What every call of \<open>execute\<close> publishes first.\<close>

definition first_effects :: "request_context \<Rightarrow> nat \<Rightarrow> effect list" where
  "first_effects rc bus =
     (case rc_task rc of None \<Rightarrow> [Publish bus (PTask (submitted_task rc))] | Some _ \<Rightarrow> []) @
     [Publish bus (PStatus (working_update (rc_taskId rc) (rc_contextId rc) ''state-change''))]"

text \<open>The final status updates in a log, each with its state and the texts of its message.\<close>

fun terminals :: "effect list \<Rightarrow> (task_state \<times> string list) list" where
  "terminals [] = []"
| "terminals (Publish b (PStatus su) # xs) =
     (if su_final su
      then (su_state su, case su_message su of None \<Rightarrow> [] | Some m \<Rightarrow> text_parts (parts m))
             # terminals xs
      else terminals xs)"
| "terminals (x # xs) = terminals xs"

text \<open>The options \<open>execute\<close> passes to \<open>startThread\<close>, and the executor after the first
  publishes of \<open>execute\<close>.\<close>

definition thread_options :: "env \<Rightarrow> string \<Rightarrow> ThreadOptions" where
  "thread_options e contextId =
     \<lparr> skipGitRepoCheck = True,
       o_webSearchEnabled = webSearchEnabled (resolveConfig e contextId),
       networkAccessEnabled = networkAccess (resolveConfig e contextId),
       webSearchMode = ''live'',
       o_workingDirectory = workingDir_of e contextId,
       o_sandboxMode = sandboxMode (resolveConfig e contextId),
       o_approvalPolicy = approvalPolicy (resolveConfig e contextId) \<rparr>"

definition announced :: "request_context \<Rightarrow> nat \<Rightarrow> executor \<Rightarrow> executor" where
  "announced rc bus st =
     st\<lparr>taskContexts := (taskContexts st)(rc_taskId rc \<mapsto> rc_contextId rc),
        effects := effects st @ first_effects rc bus\<rparr>"

text \<open>The calls of \<open>startThread\<close> and of \<open>runStreamed\<close> in a log; a registry whose
  threads all came from \<open>startThread\<close>.\<close>

fun starts :: "effect list \<Rightarrow> (ThreadOptions \<times> nat) list" where
  "starts [] = []"
| "starts (StartThread opts th # xs) = (opts, th) # starts xs"
| "starts (x # xs) = starts xs"

fun runs :: "effect list \<Rightarrow> (nat \<times> string) list" where
  "runs [] = []"
| "runs (RunStreamed th txt # xs) = (th, txt) # runs xs"
| "runs (x # xs) = runs xs"

definition registry_ok :: "executor \<Rightarrow> bool" where
  "registry_ok st = (\<forall>c th. threads st c = Some th \<longrightarrow> th < thread_count st)"

text \<open>What the translation of an event leaves alone.\<close>

definition same_registry :: "executor \<Rightarrow> executor \<Rightarrow> bool" where
  "same_registry st st' =
     (threads st' = threads st \<and> threadWorkingDirs st' = threadWorkingDirs st \<and>
      thread_count st' = thread_count st \<and>
      starts (effects st') = starts (effects st) \<and> runs (effects st') = runs (effects st))"

subsection \<open>Tool updates\<close>

text \<open>The data record of a tool update (\<open>publishToolUpdate\<close>) in a log entry.\<close>

fun tool_update_of :: "effect \<Rightarrow> data_payload option" where
  "tool_update_of (Publish b (PStatus su)) =
     (if su_kind su = Some ''tool-call-update'' then
        (case su_message su of
           None \<Rightarrow> None
         | Some m \<Rightarrow> (case parts m of [DataPart d] \<Rightarrow> Some d | _ \<Rightarrow> None))
      else None)"
| "tool_update_of _ = None"

text \<open>The tool update of the first sighting of a command execution or MCP tool call, and
  the one of its completion.\<close>

fun is_started :: "string \<Rightarrow> data_payload \<Rightarrow> bool" where
  "is_started i (CommandStarted c status command) = (c = i)"
| "is_started i (McpStarted c status server tool arguments) = (c = i)"
| "is_started i _ = False"

fun is_terminal :: "string \<Rightarrow> data_payload \<Rightarrow> bool" where
  "is_terminal i (CommandFinished c status command exit_code) = (c = i)"
| "is_terminal i (McpFailed c err) = (c = i)"
| "is_terminal i (McpCompleted c result) = (c = i)"
| "is_terminal i _ = False"

definition started_updates :: "string \<Rightarrow> effect list \<Rightarrow> nat" where
  "started_updates i effs =
     length (filter (\<lambda>x. case tool_update_of x of None \<Rightarrow> False | Some d \<Rightarrow> is_started i d) effs)"

definition terminal_updates :: "string \<Rightarrow> effect list \<Rightarrow> nat" where
  "terminal_updates i effs =
     length (filter (\<lambda>x. case tool_update_of x of None \<Rightarrow> False | Some d \<Rightarrow> is_terminal i d) effs)"

text \<open>The events of the stream up to the first turn.failed: the ones \<open>execute\<close> dispatches
  when it never finds its task marked canceled.\<close>

fun dispatched :: "arrival list \<Rightarrow> thread_event list" where
  "dispatched [] = []"
| "dispatched (CancelCall t b # rest) = dispatched rest"
| "dispatched (Event (TurnFailed msg) # rest) = []"
| "dispatched (Event ev # rest) = ev # dispatched rest"

fun tool_item_id :: "thread_item \<Rightarrow> string option" where
  "tool_item_id (CommandExecution i command aggregated_output exit_code status) = Some i"
| "tool_item_id (McpToolCall i server tool arguments result err status) = Some i"
| "tool_item_id _ = None"

fun tool_event :: "string \<Rightarrow> thread_event \<Rightarrow> bool" where
  "tool_event i (ItemEvent ph item) = (tool_item_id item = Some i)"
| "tool_event i _ = False"

fun completes :: "string \<Rightarrow> thread_event \<Rightarrow> bool" where
  "completes i (ItemEvent ItemCompleted item) = (tool_item_id item = Some i)"
| "completes i _ = False"

text \<open>An item.completed of an MCP tool call says how the call went: it has an error or a
  (truthy) result.\<close>

fun reports_outcome :: "thread_event \<Rightarrow> bool" where
  "reports_outcome (ItemEvent ph (McpToolCall i server tool arguments result err status)) =
     (err \<noteq> None \<or> (case result of None \<Rightarrow> False | Some r \<Rightarrow> js_truthy r))"
| "reports_outcome _ = True"

definition phase :: "bookkeeping \<Rightarrow> string \<Rightarrow> string option" where
  "phase bk i = sentItemStates bk (i @ '':state'')"

definition next_phase :: "bool \<Rightarrow> string option \<Rightarrow> string option" where
  "next_phase isCompleted lastState =
     (if isCompleted \<and> lastState \<noteq> Some ''completed'' then Some ''completed''
      else if \<not> truthy lastState then Some ''started'' else lastState)"


subsection \<open>Text deltas\<close>

text \<open>The text delta a log entry carries: the text part of a text-content message, or the
  text of a thought.\<close>

fun delta_of :: "effect \<Rightarrow> string option" where
  "delta_of (Publish b (PStatus su)) =
     (case su_message su of
        None \<Rightarrow> None
      | Some m \<Rightarrow>
          (case parts m of
             [TextPart d] \<Rightarrow> if su_kind su = Some ''text-content'' then Some d else None
           | [DataPart (ThoughtData d)] \<Rightarrow> if su_kind su = Some ''thought'' then Some d else None
           | _ \<Rightarrow> None))"
| "delta_of _ = None"

fun segment_deltas :: "effect list \<Rightarrow> string list" where
  "segment_deltas [] = []"
| "segment_deltas (x # xs) =
     (case delta_of x of None \<Rightarrow> segment_deltas xs | Some d \<Rightarrow> d # segment_deltas xs)"

text \<open>What each arrival makes the executor do while \<open>execute\<close> consumes the stream: the
  arrivals the loop gets to, each with the log entries it adds.\<close>

fun trace ::
  "env \<Rightarrow> nat \<Rightarrow> string \<Rightarrow> string \<Rightarrow> arrival list \<Rightarrow> bookkeeping \<Rightarrow> executor
     \<Rightarrow> (arrival \<times> effect list) list" where
  "trace e bus taskId contextId [] bk st = []"
| "trace e bus taskId contextId (CancelCall t b # rest) bk st =
     (CancelCall t b, new_effects st (cancelTask e t b st))
       # trace e bus taskId contextId rest bk (cancelTask e t b st)"
| "trace e bus taskId contextId (Event ev # rest) bk st =
     (case loop_body e bus taskId contextId ev bk st of
        Return st' \<Rightarrow> [(Event ev, new_effects st st')]
      | Continue bk' st' \<Rightarrow>
          (Event ev, new_effects st st') # trace e bus taskId contextId rest bk' st')"

text \<open>The arrivals up to and including the first turn.failed.\<close>

fun reached :: "arrival list \<Rightarrow> arrival list" where
  "reached [] = []"
| "reached (Event (TurnFailed msg) # rest) = [Event (TurnFailed msg)]"
| "reached (a # rest) = a # reached rest"

definition run_trace ::
  "env \<Rightarrow> request_context \<Rightarrow> nat \<Rightarrow> arrival list \<Rightarrow> executor \<Rightarrow> (arrival \<times> effect list) list" where
  "run_trace e rc bus arrivals st =
     (case start_run e rc bus st of
        Return st' \<Rightarrow> []
      | Continue bk st1 \<Rightarrow> trace e bus (rc_taskId rc) (rc_contextId rc) arrivals bk st1)"

text \<open>The text of an agent message or reasoning event for item \<open>i\<close>; the texts observed for
  \<open>i\<close>, in order; texts that only grow; the last text observed.\<close>

fun text_of :: "string \<Rightarrow> thread_event \<Rightarrow> string option" where
  "text_of i (ItemEvent ph (AgentMessage j body)) = (if j = i then Some body else None)"
| "text_of i (ItemEvent ph (Reasoning j body)) = (if j = i then Some body else None)"
| "text_of i _ = None"

fun observed_texts :: "string \<Rightarrow> thread_event list \<Rightarrow> string list" where
  "observed_texts i [] = []"
| "observed_texts i (ev # evs) =
     (case text_of i ev of
        None \<Rightarrow> observed_texts i evs
      | Some body \<Rightarrow> body # observed_texts i evs)"

fun growing :: "string list \<Rightarrow> bool" where
  "growing (x # y # ys) = (prefix x y \<and> growing (y # ys))"
| "growing _ = True"

definition final_text :: "string \<Rightarrow> thread_event list \<Rightarrow> string" where
  "final_text i evs = last ([] # observed_texts i evs)"

text \<open>The deltas published for item \<open>i\<close>: those in the log entries of its own events.\<close>

fun item_deltas :: "string \<Rightarrow> (arrival \<times> effect list) list \<Rightarrow> string list" where
  "item_deltas i [] = []"
| "item_deltas i ((Event ev, seg) # tr) =
     (if text_of i ev = None then [] else segment_deltas seg) @ item_deltas i tr"
| "item_deltas i ((CancelCall t b, seg) # tr) = item_deltas i tr"

text \<open>A command execution whose key for its output in \<open>sentTextLengths\<close> is the item id
  \<open>i\<close>.\<close>

fun output_key_clash :: "string \<Rightarrow> thread_event \<Rightarrow> bool" where
  "output_key_clash i (ItemEvent ph (CommandExecution j command aggregated_output exit_code status)) =
     (j @ '':output'' = i)"
| "output_key_clash i _ = False"

definition sent :: "bookkeeping \<Rightarrow> string \<Rightarrow> nat" where
  "sent bk i = (case sentTextLengths bk i of None \<Rightarrow> 0 | Some n \<Rightarrow> n)"


subsection \<open>Example inputs\<close>

definition demo_env :: env where
  "demo_env =
     \<lparr> getConfig = (\<lambda>_. no_overrides), getWorkingDirectory = None, cwd = ''/srv'',
       randomUUID = (\<lambda>n. ''uuid-'' @ replicate n CHR ''x''),
       JSON_stringify = (\<lambda>_. Some ''{}''), String_of = (\<lambda>_. ''[object Object]'') \<rparr>"

text \<open>\<open>JSON.stringify(v, null, 2)\<close> on the values of \<open>jsval\<close> (the members of an object in
  the order of enumeration): what the platform function gives where the environment of an
  example needs it.\<close>

definition digit :: "nat \<Rightarrow> char" where
  "digit n = ''0123456789abcdef'' ! n"

fun decimal :: "nat \<Rightarrow> string" where
  "decimal n = (if n < 10 then [digit n] else decimal (n div 10) @ [digit (n mod 10)])"

declare decimal.simps [simp del]

definition json_number :: "int \<Rightarrow> string" where
  "json_number n = (if n < 0 then CHR ''-'' # decimal (nat (- n)) else decimal (nat n))"

definition json_escape :: "char \<Rightarrow> string" where
  "json_escape c =
     (if c = CHR 0x22 then [CHR 0x5C, CHR 0x22]
      else if c = CHR 0x5C then [CHR 0x5C, CHR 0x5C]
      else if c = CHR 0x08 then [CHR 0x5C, CHR ''b'']
      else if c = CHR 0x0C then [CHR 0x5C, CHR ''f'']
      else if c = CHR 0x0A then [CHR 0x5C, CHR ''n'']
      else if c = CHR 0x0D then [CHR 0x5C, CHR ''r'']
      else if c = CHR 0x09 then [CHR 0x5C, CHR ''t'']
      else if (of_char c :: nat) < 32 then
        [CHR 0x5C, CHR ''u'', CHR ''0'', CHR ''0'',
         digit (of_char c div 16), digit (of_char c mod 16)]
      else [c])"

definition json_quote :: "string \<Rightarrow> string" where
  "json_quote s = CHR 0x22 # concat (map json_escape s) @ [CHR 0x22]"

definition json_lines :: "nat \<Rightarrow> string list \<Rightarrow> string" where
  "json_lines depth xs =
     CHR 0x0A # join ('','' @ [CHR 0x0A]) (map (\<lambda>x. replicate (2 * Suc depth) CHR '' '' @ x) xs)
       @ CHR 0x0A # replicate (2 * depth) CHR '' ''"

fun json_indent :: "nat \<Rightarrow> jsval \<Rightarrow> string"
  and json_items :: "nat \<Rightarrow> jsval list \<Rightarrow> string list"
  and json_members :: "nat \<Rightarrow> (string \<times> jsval) list \<Rightarrow> string list" where
  "json_indent depth JNull = ''null''"
| "json_indent depth (JBool b) = (if b then ''true'' else ''false'')"
| "json_indent depth (JNum n) = json_number n"
| "json_indent depth (JStr s) = json_quote s"
| "json_indent depth (JArr xs) =
     (if xs = [] then ''[]''
      else ''['' @ json_lines depth (json_items (Suc depth) xs) @ '']'')"
| "json_indent depth (JObj ms) =
     (if ms = [] then ''{}''
      else ''{'' @ json_lines depth (json_members (Suc depth) ms) @ ''}'')"
| "json_items depth [] = []"
| "json_items depth (x # xs) = json_indent depth x # json_items depth xs"
| "json_members depth [] = []"
| "json_members depth ((k, v) # ms) =
     (json_quote k @ '': '' @ json_indent depth v) # json_members depth ms"

definition node_env :: env where
  "node_env = demo_env\<lparr>JSON_stringify := (\<lambda>v. Some (json_indent 0 v))\<rparr>"

definition token_usage :: jsval where
  "token_usage =
     JObj [(''input_tokens'', JNum 3), (''cached_input_tokens'', JNum 0),
           (''output_tokens'', JNum 7)]"

text \<open>The lines of the text that \<open>JSON.stringify({ usage }, null, 2)\<close> gives for this usage.\<close>

definition token_usage_text :: string where
  "token_usage_text =
     join [CHR 0x0A]
       [''{'',
        ''  '' @ [CHR 0x22] @ ''usage'' @ [CHR 0x22] @ '': {'',
        ''    '' @ [CHR 0x22] @ ''input_tokens'' @ [CHR 0x22] @ '': 3,'',
        ''    '' @ [CHR 0x22] @ ''cached_input_tokens'' @ [CHR 0x22] @ '': 0,'',
        ''    '' @ [CHR 0x22] @ ''output_tokens'' @ [CHR 0x22] @ '': 7'',
        ''  }'',
        ''}'']"

definition user_message :: "part list \<Rightarrow> message" where
  "user_message ps =
     \<lparr> msg_role = User, messageId = ''msg-1'', msg_taskId = Some ''task-1'',
       msg_contextId = Some ''ctx-1'', parts = ps \<rparr>"

definition demo_rc :: "part list \<Rightarrow> request_context" where
  "demo_rc ps =
     \<lparr> rc_taskId = ''task-1'', rc_contextId = ''ctx-1'', userMessage = user_message ps,
       rc_task = None \<rparr>"

definition env_with_dir :: "string \<Rightarrow> env" where
  "env_with_dir d = demo_env\<lparr>getWorkingDirectory := Some (\<lambda>_. Some d)\<rparr>"

definition env_with_config_dir :: "string \<Rightarrow> env" where
  "env_with_config_dir d =
     demo_env\<lparr>getConfig := (\<lambda>_. no_overrides\<lparr>p_workingDirectory := Some (Some d)\<rparr>)\<rparr>"

definition mcp_call :: "jsval option \<Rightarrow> string option \<Rightarrow> string \<Rightarrow> thread_item" where
  "mcp_call result err status = McpToolCall ''mcp-1'' ''files'' ''read'' JNull result err status"

definition shell_command :: "string \<Rightarrow> int option \<Rightarrow> string \<Rightarrow> thread_item" where
  "shell_command out exit_code status = CommandExecution ''cmd-1'' ''ls'' out exit_code status"

definition streaming_run :: "arrival list" where
  "streaming_run =
     [Event TurnStarted,
      Event (ItemEvent ItemStarted (AgentMessage ''item-2'' ''Streaming'')),
      Event (ItemEvent ItemUpdated (Reasoning ''item-3'' ''Hm'')),
      Event (ItemEvent ItemUpdated (AgentMessage ''item-2'' ''Streaming'')),
      Event (ItemEvent ItemCompleted (AgentMessage ''item-2'' ''Streaming done''))]"

definition clashing_run :: "arrival list" where
  "clashing_run =
     [Event (ItemEvent ItemStarted (shell_command ''abc'' None ''in_progress'')),
      Event (ItemEvent ItemCompleted (AgentMessage ''cmd-1:output'' ''hello''))]"

section \<open>Properties\<close>

subsection \<open>Basic facts\<close>

lemmas pub_defs = publish_def finished_def next_uuid_def publishStatus_def publishTextContent_def
  publishThought_def publishToolUpdate_def publishToolOutput_def publishFailure_def
  publishCanceled_def truthy_def

lemmas shape_defs = working_update_def message_update_def completed_update_def failed_update_def
  canceled_update_def submitted_task_def first_effects_def

lemma cancelTask_effects:
  "effects (cancelTask e t bus st) = effects st @
     [Publish bus (PStatus (canceled_update (randomUUID e (uuid_count st)) t
        (case taskContexts st t of Some c \<Rightarrow> c | None \<Rightarrow> randomUUID e (Suc (uuid_count st))))),
      Finished bus]"
  by (simp add: cancelTask_def pub_defs canceled_update_def Let_def split: option.splits)

lemma cancelTask_frame:
  "canceledTasks (cancelTask e t bus st) = canceledTasks st - {t}"
  "taskContexts (cancelTask e t bus st) = (taskContexts st)(t := None)"
  "threads (cancelTask e t bus st) = threads st"
  "threadWorkingDirs (cancelTask e t bus st) = threadWorkingDirs st"
  "thread_count (cancelTask e t bus st) = thread_count st"
  by (simp_all add: cancelTask_def pub_defs Let_def split: option.splits)

subsection \<open>Cancelling\<close>

text \<open>
  Claim C10. When \<open>cancelTask\<close> is called for a task id that has no recorded context id,
  the Canceled status update it publishes carries as context id the value of a fresh call
  of \<open>crypto.randomUUID()\<close> (the call after the one that gives the message id), in the
  update and in its message; with a recorded context id it carries that one. No context id
  is recorded in a new executor, and none is left for the task after any Canceled
  publish.
\<close>

theorem cancel_without_context:
  "(taskContexts st t = None \<longrightarrow>
      effects (cancelTask e t bus st) = effects st @
        [Publish bus (PStatus (canceled_update (randomUUID e (uuid_count st)) t
                                 (randomUUID e (Suc (uuid_count st))))),
         Finished bus])
   \<and> (taskContexts st t = Some c \<longrightarrow>
      effects (cancelTask e t bus st) = effects st @
        [Publish bus (PStatus (canceled_update (randomUUID e (uuid_count st)) t c)),
         Finished bus])
   \<and> taskContexts new_executor t = None
   \<and> taskContexts (publishCanceled e bus' t c' st) t = None"
  by (simp add: cancelTask_effects new_executor_def) (simp add: pub_defs Let_def split: option.splits)

theorem cancel_without_context_witness:
  "taskContexts new_executor ''task-1'' = None \<and>
   effects (cancelTask demo_env ''task-1'' 0 new_executor) =
     [Publish 0 (PStatus (canceled_update ''uuid-'' ''task-1'' ''uuid-x'')), Finished 0]"
  using cancel_without_context [of new_executor "''task-1''" demo_env 0]
  by (simp add: new_executor_def demo_env_def)

text \<open>
  Claim C6, as stated, fails: on a new executor, a second \<open>cancelTask\<close> for the same
  task id publishes a second Canceled update and signals the bus finished a second time.
\<close>

theorem second_cancel_publishes_again:
  "effects (cancelTask demo_env ''task-1'' 0 (cancelTask demo_env ''task-1'' 0 new_executor)) =
     [Publish 0 (PStatus (canceled_update ''uuid-'' ''task-1'' ''uuid-x'')), Finished 0,
      Publish 0 (PStatus (canceled_update ''uuid-xx'' ''task-1'' ''uuid-xxx'')), Finished 0]"
  by (simp add: cancelTask_effects cancelTask_frame)
     (simp add: cancelTask_def pub_defs new_executor_def demo_env_def Let_def)

text \<open>
  Claim C6, amended. A second \<open>cancelTask\<close> for the same task id, right after the first,
  publishes one more final Canceled update (its context id a fresh UUID, since the
  first call cleared the recorded one) and signals its bus finished; it leaves the set of
  canceled tasks, the recorded context ids and the thread registry as the first call
  left them.
\<close>

theorem second_cancel:
  "effects (cancelTask e t b2 (cancelTask e t b1 st)) =
     effects (cancelTask e t b1 st) @
       [Publish b2 (PStatus (canceled_update (randomUUID e (uuid_count (cancelTask e t b1 st))) t
                               (randomUUID e (Suc (uuid_count (cancelTask e t b1 st)))))),
        Finished b2]
   \<and> canceledTasks (cancelTask e t b2 (cancelTask e t b1 st)) = canceledTasks (cancelTask e t b1 st)
   \<and> taskContexts (cancelTask e t b2 (cancelTask e t b1 st)) = taskContexts (cancelTask e t b1 st)
   \<and> threads (cancelTask e t b2 (cancelTask e t b1 st)) = threads (cancelTask e t b1 st)
   \<and> threadWorkingDirs (cancelTask e t b2 (cancelTask e t b1 st)) =
       threadWorkingDirs (cancelTask e t b1 st)"
  by (simp add: cancelTask_effects [of e t b2] cancelTask_frame)

subsection \<open>The early returns of execute\<close>

text \<open>The extracted text is empty when the message has no text part, or one empty text
  part and no other.\<close>

lemma join_empty: "sep \<noteq> [] \<Longrightarrow> (join sep xs = []) = (xs = [] \<or> xs = [[]])"
  by (induction sep xs rule: join.induct) simp_all

lemma extract_text_empty:
  "(extract_text m = []) = (text_parts (parts m) = [] \<or> text_parts (parts m) = [[]])"
  by (simp add: extract_text_def join_empty)


lemma start_run_canceled:
  "rc_taskId rc \<in> canceledTasks st \<Longrightarrow>
   start_run e rc bus st =
     Return (st\<lparr>taskContexts := (taskContexts st)(rc_taskId rc := None),
               canceledTasks := canceledTasks st - {rc_taskId rc},
               uuid_count := Suc (uuid_count st),
               effects := effects st @ first_effects rc bus @
                 [Publish bus (PStatus (canceled_update (randomUUID e (uuid_count st))
                                          (rc_taskId rc) (rc_contextId rc)))]\<rparr>)"
  by (simp add: start_run_def pub_defs shape_defs Let_def split: option.splits)

lemma start_run_no_text:
  "rc_taskId rc \<notin> canceledTasks st \<Longrightarrow> extract_text (userMessage rc) = [] \<Longrightarrow>
   start_run e rc bus st =
     Return (st\<lparr>taskContexts := (taskContexts st)(rc_taskId rc \<mapsto> rc_contextId rc),
               uuid_count := Suc (uuid_count st),
               effects := effects st @ first_effects rc bus @
                 [Publish bus (PStatus (failed_update (randomUUID e (uuid_count st))
                                          (rc_taskId rc) (rc_contextId rc)
                                          ''Error: No text content'')),
                  Finished bus]\<rparr>)"
  by (simp add: start_run_def pub_defs shape_defs Let_def split: option.splits)

text \<open>
  What \<open>execute\<close> does for a task id that is marked canceled when it starts: it
  publishes its first updates and then a final Canceled status update with the context
  id of the request, and nothing else. No thread is asked of the Codex client, and the
  thread registry is left as it was.
\<close>

theorem pre_canceled_execute:
  "rc_taskId rc \<in> canceledTasks st \<Longrightarrow>
     effects (execute e rc bus arrivals st) =
       effects st @ first_effects rc bus @
         [Publish bus (PStatus (canceled_update (randomUUID e (uuid_count st))
                                  (rc_taskId rc) (rc_contextId rc)))]
     \<and> threads (execute e rc bus arrivals st) = threads st
     \<and> threadWorkingDirs (execute e rc bus arrivals st) = threadWorkingDirs st
     \<and> thread_count (execute e rc bus arrivals st) = thread_count st"
  by (simp add: execute_def start_run_canceled)

text \<open>
  Claim C2 on a run: the task is marked canceled when \<open>execute\<close> starts. \<open>execute\<close>
  publishes the Canceled update and never asks for a thread, but it returns without
  signalling the bus finished, which every other way out of \<open>execute\<close>, and
  \<open>cancelTask\<close>, do after their final update.
\<close>

theorem pre_canceled_execute_not_finished:
  "effects (execute demo_env (demo_rc [TextPart ''Hi'']) 0 [Event TurnStarted]
              (new_executor\<lparr>canceledTasks := {''task-1''}\<rparr>)) =
     [Publish 0 (PTask (submitted_task (demo_rc [TextPart ''Hi'']))),
      Publish 0 (PStatus (working_update ''task-1'' ''ctx-1'' ''state-change'')),
      Publish 0 (PStatus (canceled_update ''uuid-'' ''task-1'' ''ctx-1''))] \<and>
   Finished 0 \<notin> set (effects (execute demo_env (demo_rc [TextPart ''Hi'']) 0 [Event TurnStarted]
                               (new_executor\<lparr>canceledTasks := {''task-1''}\<rparr>)))"
  by (simp add: execute_def start_run_canceled demo_rc_def demo_env_def new_executor_def
        first_effects_def)

text \<open>
  Claim C5, amended. For a task id that is not marked canceled and an input message whose
  extracted text is empty, \<open>execute\<close> publishes its first updates, then a final Failed
  status update whose message text is \<open>Error: No text content\<close>, signals the bus finished
  and returns: no thread is asked of the Codex client, and the thread registry is left as
  it was.
\<close>

theorem empty_input_fails:
  "rc_taskId rc \<notin> canceledTasks st \<Longrightarrow> extract_text (userMessage rc) = [] \<Longrightarrow>
     effects (execute e rc bus arrivals st) =
       effects st @ first_effects rc bus @
         [Publish bus (PStatus (failed_update (randomUUID e (uuid_count st))
                                  (rc_taskId rc) (rc_contextId rc) ''Error: No text content'')),
          Finished bus]
     \<and> threads (execute e rc bus arrivals st) = threads st
     \<and> threadWorkingDirs (execute e rc bus arrivals st) = threadWorkingDirs st
     \<and> thread_count (execute e rc bus arrivals st) = thread_count st"
  by (simp add: execute_def start_run_no_text)

theorem empty_input_fails_witness:
  "''task-1'' \<notin> canceledTasks new_executor \<and> extract_text (user_message [DataPart (RawData JNull), TextPart []]) = [] \<and>
   effects (execute demo_env (demo_rc [DataPart (RawData JNull), TextPart []]) 0 [Event TurnStarted] new_executor) =
     [Publish 0 (PTask (submitted_task (demo_rc [DataPart (RawData JNull), TextPart []]))),
      Publish 0 (PStatus (working_update ''task-1'' ''ctx-1'' ''state-change'')),
      Publish 0 (PStatus (failed_update ''uuid-'' ''task-1'' ''ctx-1'' ''Error: No text content'')),
      Finished 0]"
  using empty_input_fails [of "demo_rc [DataPart (RawData JNull), TextPart []]" new_executor demo_env 0 "[Event TurnStarted]"]
  by (simp add: demo_rc_def demo_env_def new_executor_def first_effects_def extract_text_def user_message_def)

text \<open>
  Claim C5, as stated, fails: the text of the Failed update is not \<open>No text content\<close>;
  \<open>publishFailure\<close> puts \<open>Error: \<close> before the message it is given.
\<close>

theorem empty_input_message_text:
  "terminals (effects (execute demo_env (demo_rc []) 0 [] new_executor)) =
     [(Failed, [''Error: No text content''])]"
  by (simp add: execute_def start_run_no_text demo_rc_def new_executor_def first_effects_def
       extract_text_def user_message_def shape_defs agent_message_def)

subsection \<open>Running the stream\<close>

lemma workingDir_of_truthy: "or_else (workingDir_of e c) None = workingDir_of e c"
  by (simp add: workingDir_of_def or_else_def truthy_def normalizeWorkingDirectory_def Let_def
           split: option.splits)


lemma acquire_thread_new:
  "threads st c = None \<or> threadWorkingDirs st c \<noteq> Some (threadKey e c) \<Longrightarrow>
   acquire_thread e c st =
     (thread_count st,
      st\<lparr>thread_count := Suc (thread_count st),
         effects := effects st @ [StartThread (thread_options e c) (thread_count st)],
         threads := (threads st)(c \<mapsto> thread_count st),
         threadWorkingDirs := (threadWorkingDirs st)(c \<mapsto> threadKey e c)\<rparr>)"
  by (auto simp add: acquire_thread_def Let_def startThread_def thread_options_def
        workingDir_of_truthy split: option.splits)

lemma start_run_continue:
  "rc_taskId rc \<notin> canceledTasks st \<Longrightarrow> extract_text (userMessage rc) \<noteq> [] \<Longrightarrow>
   start_run e rc bus st =
     Continue no_bookkeeping
       (runStreamed (fst (acquire_thread e (rc_contextId rc) (announced rc bus st)))
          (extract_text (userMessage rc))
          (snd (acquire_thread e (rc_contextId rc) (announced rc bus st))))"
  by (simp add: start_run_def pub_defs shape_defs announced_def Let_def split: option.splits prod.splits)

lemma acquire_thread_frame:
  "canceledTasks (snd (acquire_thread e c st)) = canceledTasks st"
  "taskContexts (snd (acquire_thread e c st)) = taskContexts st"
  "uuid_count (snd (acquire_thread e c st)) = uuid_count st"
  by (simp_all add: acquire_thread_def Let_def startThread_def split: option.splits)

lemma consume_turn:
  "taskId \<notin> canceledTasks st \<Longrightarrow>
   effects (consume e bus taskId contextId
      [Event TurnStarted, Event (ItemEvent ItemCompleted (AgentMessage i ''Hi'')),
       Event (TurnCompleted usage)] no_bookkeeping st) =
   effects st @
     [Publish bus (PStatus
        \<lparr> su_taskId = taskId, su_contextId = contextId, su_state = Working,
          su_message = None, su_final = False, su_kind = Some ''turn-started'' \<rparr>),
      Publish bus (PStatus
        \<lparr> su_taskId = taskId, su_contextId = contextId, su_state = Working,
          su_message =
            Some \<lparr> msg_role = Agent, messageId = randomUUID e (uuid_count st),
                   msg_taskId = Some taskId, msg_contextId = Some contextId,
                   parts = [TextPart ''Hi''] \<rparr>,
          su_final = False, su_kind = Some ''text-content'' \<rparr>),
      Publish bus (PArtifact
        \<lparr> au_taskId = taskId, au_contextId = contextId,
          artifactId = ''tool-turn-usage-output'',
          au_text =
            (case JSON_stringify e (JObj [(''usage'', usage)]) of
               Some s \<Rightarrow> s
             | None \<Rightarrow> String_of e (JObj [(''usage'', usage)])),
          au_append = False, lastChunk = True \<rparr>),
      Publish bus (PStatus
        \<lparr> su_taskId = taskId, su_contextId = contextId, su_state = Working,
          su_message = None, su_final = False, su_kind = Some ''turn-completed'' \<rparr>),
      Publish bus (PStatus
        \<lparr> su_taskId = taskId, su_contextId = contextId, su_state = Completed,
          su_message = None, su_final = True, su_kind = Some ''state-change'' \<rparr>),
      Finished bus]"
  by (simp add: loop_body_def text_item_def pub_defs agent_message_def stringifyToolOutput_def
        no_bookkeeping_def)

text \<open>
  Claim C9. For a task that is not marked canceled, with a non-empty input text and no call
  of \<open>cancelTask\<close> during the run, the stream turn.started, item.completed (agent message
  \<open>Hi\<close>), turn.completed (usage) makes \<open>execute\<close> publish, after the run has started and
  in this order: a Working update without message tagged turn-started; a Working update
  tagged text-content whose message is an agent message of the task with the single text
  part \<open>Hi\<close>; an artifact \<open>tool-turn-usage-output\<close>, not appended, last chunk, whose text
  is what \<open>JSON.stringify\<close> gives for the object with the single member \<open>usage\<close> (what
  \<open>String\<close> gives for it, should \<open>JSON.stringify\<close> throw); a Working update without
  message tagged turn-completed; the final Completed update; and then the bus is
  signalled finished. With the serialisation of the platform the text of the artifact is
  the indented JSON of the usage.
\<close>

theorem scenario_publish_order:
  "rc_taskId rc \<notin> canceledTasks st \<Longrightarrow> extract_text (userMessage rc) \<noteq> [] \<Longrightarrow>
   \<exists>bk st1. start_run e rc bus st = Continue bk st1 \<and>
     effects (execute e rc bus
        [Event TurnStarted, Event (ItemEvent ItemCompleted (AgentMessage i ''Hi'')),
         Event (TurnCompleted usage)] st) =
     effects st1 @
       [Publish bus (PStatus
          \<lparr> su_taskId = rc_taskId rc, su_contextId = rc_contextId rc, su_state = Working,
            su_message = None, su_final = False, su_kind = Some ''turn-started'' \<rparr>),
        Publish bus (PStatus
          \<lparr> su_taskId = rc_taskId rc, su_contextId = rc_contextId rc, su_state = Working,
            su_message =
              Some \<lparr> msg_role = Agent, messageId = randomUUID e (uuid_count st),
                     msg_taskId = Some (rc_taskId rc), msg_contextId = Some (rc_contextId rc),
                     parts = [TextPart ''Hi''] \<rparr>,
            su_final = False, su_kind = Some ''text-content'' \<rparr>),
        Publish bus (PArtifact
          \<lparr> au_taskId = rc_taskId rc, au_contextId = rc_contextId rc,
            artifactId = ''tool-turn-usage-output'',
            au_text =
              (case JSON_stringify e (JObj [(''usage'', usage)]) of
                 Some s \<Rightarrow> s
               | None \<Rightarrow> String_of e (JObj [(''usage'', usage)])),
            au_append = False, lastChunk = True \<rparr>),
        Publish bus (PStatus
          \<lparr> su_taskId = rc_taskId rc, su_contextId = rc_contextId rc, su_state = Working,
            su_message = None, su_final = False, su_kind = Some ''turn-completed'' \<rparr>),
        Publish bus (PStatus
          \<lparr> su_taskId = rc_taskId rc, su_contextId = rc_contextId rc, su_state = Completed,
            su_message = None, su_final = True, su_kind = Some ''state-change'' \<rparr>),
        Finished bus]"
proof -
  assume a: "rc_taskId rc \<notin> canceledTasks st" and b: "extract_text (userMessage rc) \<noteq> []"
  let ?st1 = "runStreamed (fst (acquire_thread e (rc_contextId rc) (announced rc bus st)))
          (extract_text (userMessage rc))
          (snd (acquire_thread e (rc_contextId rc) (announced rc bus st)))"
  have s: "start_run e rc bus st = Continue no_bookkeeping ?st1"
    using a b by (rule start_run_continue)
  have c: "rc_taskId rc \<notin> canceledTasks ?st1"
    using a by (simp add: runStreamed_def acquire_thread_frame announced_def)
  have u: "uuid_count ?st1 = uuid_count st"
    by (simp add: runStreamed_def acquire_thread_frame announced_def)
  show ?thesis
    using consume_turn [OF c, of e bus "rc_contextId rc" i usage]
    by (simp add: execute_def s u)
qed

lemma token_usage_serialised:
  "json_indent 0 (JObj [(''usage'', token_usage)]) = token_usage_text"
  by (simp add: token_usage_def token_usage_text_def json_lines_def json_quote_def
        json_escape_def json_number_def decimal.simps digit_def eval_nat_numeral)

theorem scenario_publish_order_witness:
  "''task-1'' \<notin> canceledTasks new_executor \<and>
   extract_text (userMessage (demo_rc [TextPart ''Hello''])) \<noteq> [] \<and>
   effects (execute node_env (demo_rc [TextPart ''Hello'']) 0
        [Event TurnStarted, Event (ItemEvent ItemCompleted (AgentMessage ''item-1'' ''Hi'')),
         Event (TurnCompleted token_usage)]
        new_executor) =
     [Publish 0 (PTask (submitted_task (demo_rc [TextPart ''Hello'']))),
      Publish 0 (PStatus
        \<lparr> su_taskId = ''task-1'', su_contextId = ''ctx-1'', su_state = Working,
          su_message = None, su_final = False, su_kind = Some ''state-change'' \<rparr>),
      StartThread (thread_options node_env ''ctx-1'') 0,
      RunStreamed 0 ''Hello'',
      Publish 0 (PStatus
        \<lparr> su_taskId = ''task-1'', su_contextId = ''ctx-1'', su_state = Working,
          su_message = None, su_final = False, su_kind = Some ''turn-started'' \<rparr>),
      Publish 0 (PStatus
        \<lparr> su_taskId = ''task-1'', su_contextId = ''ctx-1'', su_state = Working,
          su_message =
            Some \<lparr> msg_role = Agent, messageId = ''uuid-'', msg_taskId = Some ''task-1'',
                   msg_contextId = Some ''ctx-1'', parts = [TextPart ''Hi''] \<rparr>,
          su_final = False, su_kind = Some ''text-content'' \<rparr>),
      Publish 0 (PArtifact
        \<lparr> au_taskId = ''task-1'', au_contextId = ''ctx-1'',
          artifactId = ''tool-turn-usage-output'', au_text = token_usage_text,
          au_append = False, lastChunk = True \<rparr>),
      Publish 0 (PStatus
        \<lparr> su_taskId = ''task-1'', su_contextId = ''ctx-1'', su_state = Working,
          su_message = None, su_final = False, su_kind = Some ''turn-completed'' \<rparr>),
      Publish 0 (PStatus
        \<lparr> su_taskId = ''task-1'', su_contextId = ''ctx-1'', su_state = Completed,
          su_message = None, su_final = True, su_kind = Some ''state-change'' \<rparr>),
      Finished 0]"
  using scenario_publish_order [of "demo_rc [TextPart ''Hello'']" new_executor node_env 0
      "''item-1''" token_usage]
  by (auto simp add: demo_rc_def new_executor_def extract_text_def user_message_def
        start_run_continue acquire_thread_new announced_def shape_defs runStreamed_def
        node_env_def demo_env_def token_usage_serialised
      simp del: json_indent.simps)

text \<open>
  Claim C1 on a run: \<open>cancelTask\<close> is called for the running task after its first
  event. The Canceled update comes from \<open>cancelTask\<close> itself, which also clears the mark,
  so the check before the next event finds nothing: the next event is dispatched, and a
  final Completed update and a second finished signal follow the Canceled one.
\<close>

theorem cancel_mid_stream_goes_on:
  "effects (execute demo_env (demo_rc [TextPart ''Hello'']) 0
        [Event TurnStarted, CancelCall ''task-1'' 0,
         Event (ItemEvent ItemCompleted (AgentMessage ''item-1'' ''Hi''))]
        new_executor) =
     [Publish 0 (PTask (submitted_task (demo_rc [TextPart ''Hello'']))),
      Publish 0 (PStatus (working_update ''task-1'' ''ctx-1'' ''state-change'')),
      StartThread (thread_options demo_env ''ctx-1'') 0,
      RunStreamed 0 ''Hello'',
      Publish 0 (PStatus (working_update ''task-1'' ''ctx-1'' ''turn-started'')),
      Publish 0 (PStatus (canceled_update ''uuid-'' ''task-1'' ''ctx-1'')),
      Finished 0,
      Publish 0 (PStatus (message_update ''uuid-x'' ''task-1'' ''ctx-1'' (TextPart ''Hi'') ''text-content'')),
      Publish 0 (PStatus (completed_update ''task-1'' ''ctx-1'')),
      Finished 0]"
  by (simp add: execute_def demo_rc_def new_executor_def extract_text_def user_message_def
        start_run_continue acquire_thread_new announced_def runStreamed_def
        loop_body_def text_item_def pub_defs shape_defs no_bookkeeping_def cancelTask_def
        demo_env_def Let_def)

subsection \<open>What the loop leaves alone\<close>

lemma starts_append [simp]: "starts (xs @ ys) = starts xs @ starts ys"
  by (induction xs rule: starts.induct) simp_all

lemma runs_append [simp]: "runs (xs @ ys) = runs xs @ runs ys"
  by (induction xs rule: runs.induct) simp_all

lemma new_effects_append: "effects st' = effects st @ xs \<Longrightarrow> new_effects st st' = xs"
  by (simp add: new_effects_def)

lemma same_registry_refl [simp]: "same_registry st st"
  by (simp add: same_registry_def)

lemma same_registry_trans: "same_registry a b \<Longrightarrow> same_registry b c \<Longrightarrow> same_registry a c"
  by (simp add: same_registry_def)

lemma same_registry_pubs [simp]:
  "same_registry st (publishStatus bus t c s f m k st') = same_registry st st'"
  "same_registry st (publishToolOutput bus t c i out a l st') = same_registry st st'"
  "same_registry st (publishTextContent e bus t c txt st') = same_registry st st'"
  "same_registry st (publishThought e bus t c txt st') = same_registry st st'"
  "same_registry st (publishToolUpdate e bus t c d st') = same_registry st st'"
  "same_registry st (publishFailure e bus t c msg st') = same_registry st st'"
  "same_registry st (publishCanceled e bus t oc st') = same_registry st st'"
  "same_registry st (cancelTask e t bus st') = same_registry st st'"
  "same_registry st (finished bus st') = same_registry st st'"
  by (simp_all add: same_registry_def pub_defs cancelTask_def Let_def split: option.splits)

lemma text_item_registry [simp]:
  "same_registry st (snd (text_item e bus t c r i txt (bk, st)))"
  by (simp add: text_item_def Let_def)

lemma handle_item_registry:
  "same_registry st (snd (handle_item e bus t c isC item (bk, st)))"
  by (cases item) (simp_all add: Let_def split: prod.splits option.splits)

lemma handle_item_registry':
  "handle_item e bus t c isC item (bk, st) = (bk', st') \<Longrightarrow> same_registry st st'"
  using handle_item_registry [of st e bus t c isC item bk] by simp

lemma loop_body_registry:
  "loop_body e bus t c ev bk st = Return st' \<Longrightarrow> same_registry st st'"
  "loop_body e bus t c ev bk st = Continue bk' st' \<Longrightarrow> same_registry st st'"
  by (auto simp add: loop_body_def handle_item_registry'
        split: if_splits thread_event.splits prod.splits)

lemma consume_registry: "same_registry st (consume e bus t c arrs bk st)"
proof (induction arrs arbitrary: bk st)
  case Nil
  show ?case by simp
next
  case (Cons a arrs)
  show ?case
  proof (cases a)
    case (CancelCall t' b)
    then show ?thesis
      using Cons.IH [where st = "cancelTask e t' b st"]
      by (auto intro: same_registry_trans [of st "cancelTask e t' b st"])
  next
    case (Event ev)
    then show ?thesis
      using Cons.IH loop_body_registry [of e bus t c ev bk st]
      by (auto split: outcome.splits intro: same_registry_trans)
  qed
qed

subsection \<open>The thread registry\<close>

lemma acquire_thread_registry:
  "threads (snd (acquire_thread e c st)) c = Some (fst (acquire_thread e c st))"
  "threadWorkingDirs (snd (acquire_thread e c st)) c = Some (threadKey e c)"
  by (auto simp add: acquire_thread_def Let_def startThread_def split: option.splits)

lemma execute_continue:
  "rc_taskId rc \<notin> canceledTasks st \<Longrightarrow> extract_text (userMessage rc) \<noteq> [] \<Longrightarrow>
   execute e rc bus arrivals st =
     consume e bus (rc_taskId rc) (rc_contextId rc) arrivals no_bookkeeping
       (runStreamed (fst (acquire_thread e (rc_contextId rc) (announced rc bus st)))
          (extract_text (userMessage rc))
          (snd (acquire_thread e (rc_contextId rc) (announced rc bus st))))"
  by (simp add: execute_def start_run_continue)

lemma same_registry_fields:
  "same_registry st st' \<Longrightarrow> threads st' = threads st"
  "same_registry st st' \<Longrightarrow> threadWorkingDirs st' = threadWorkingDirs st"
  "same_registry st st' \<Longrightarrow> thread_count st' = thread_count st"
  "same_registry st st' \<Longrightarrow> starts (effects st') = starts (effects st)"
  "same_registry st st' \<Longrightarrow> runs (effects st') = runs (effects st)"
  by (simp_all add: same_registry_def)

text \<open>The registry and the log after a call of \<open>execute\<close> that reaches the stream.\<close>

lemma execute_registry:
  assumes "rc_taskId rc \<notin> canceledTasks st" and "extract_text (userMessage rc) \<noteq> []"
  shows "threads (execute e rc bus arrivals st) (rc_contextId rc) =
           Some (fst (acquire_thread e (rc_contextId rc) (announced rc bus st)))"
    and "threadWorkingDirs (execute e rc bus arrivals st) (rc_contextId rc) =
           Some (threadKey e (rc_contextId rc))"
    and "runs (effects (execute e rc bus arrivals st)) =
           runs (effects st) @
             [(fst (acquire_thread e (rc_contextId rc) (announced rc bus st)),
               extract_text (userMessage rc))]"
    and "starts (effects (execute e rc bus arrivals st)) =
           starts (effects (snd (acquire_thread e (rc_contextId rc) (announced rc bus st))))"
    and "thread_count (execute e rc bus arrivals st) =
           thread_count (snd (acquire_thread e (rc_contextId rc) (announced rc bus st)))"
    and "threads (execute e rc bus arrivals st) =
           threads (snd (acquire_thread e (rc_contextId rc) (announced rc bus st)))"
proof -
  let ?a = "acquire_thread e (rc_contextId rc) (announced rc bus st)"
  let ?st1 = "runStreamed (fst ?a) (extract_text (userMessage rc)) (snd ?a)"
  have ex: "execute e rc bus arrivals st =
      consume e bus (rc_taskId rc) (rc_contextId rc) arrivals no_bookkeeping ?st1"
    using assms by (rule execute_continue)
  have sr: "same_registry ?st1 (execute e rc bus arrivals st)"
    unfolding ex by (rule consume_registry)
  have r: "runs (effects (snd ?a)) = runs (effects st)"
    by (auto simp add: acquire_thread_def Let_def startThread_def announced_def first_effects_def
          split: option.splits)
  show "threads (execute e rc bus arrivals st) (rc_contextId rc) = Some (fst ?a)"
    using same_registry_fields(1) [OF sr] by (simp add: runStreamed_def acquire_thread_registry)
  show "threadWorkingDirs (execute e rc bus arrivals st) (rc_contextId rc) =
           Some (threadKey e (rc_contextId rc))"
    using same_registry_fields(2) [OF sr] by (simp add: runStreamed_def acquire_thread_registry)
  show "runs (effects (execute e rc bus arrivals st)) =
           runs (effects st) @ [(fst ?a, extract_text (userMessage rc))]"
    using same_registry_fields(5) [OF sr] by (simp add: runStreamed_def r)
  show "starts (effects (execute e rc bus arrivals st)) = starts (effects (snd ?a))"
    using same_registry_fields(4) [OF sr] by (simp add: runStreamed_def)
  show "thread_count (execute e rc bus arrivals st) = thread_count (snd ?a)"
    using same_registry_fields(3) [OF sr] by (simp add: runStreamed_def)
  show "threads (execute e rc bus arrivals st) = threads (snd ?a)"
    using same_registry_fields(1) [OF sr] by (simp add: runStreamed_def)
qed

lemma acquire_thread_ok:
  "registry_ok st \<Longrightarrow> registry_ok (snd (acquire_thread e c st))"
  by (auto simp add: registry_ok_def acquire_thread_def Let_def startThread_def less_Suc_eq
        split: option.splits if_splits)

lemma announced_fields [simp]:
  "threads (announced rc bus st) = threads st"
  "threadWorkingDirs (announced rc bus st) = threadWorkingDirs st"
  "thread_count (announced rc bus st) = thread_count st"
  "starts (effects (announced rc bus st)) = starts (effects st)"
  "runs (effects (announced rc bus st)) = runs (effects st)"
  by (simp_all add: announced_def first_effects_def split: option.splits)

lemma registry_ok_announced [simp]: "registry_ok (announced rc bus st) = registry_ok st"
  by (simp add: registry_ok_def)

lemma execute_registry_ok:
  assumes "rc_taskId rc \<notin> canceledTasks st" and "extract_text (userMessage rc) \<noteq> []"
    and "registry_ok st"
  shows "registry_ok (execute e rc bus arrivals st)"
  using acquire_thread_ok [of "announced rc bus st" e "rc_contextId rc"] assms(3)
  by (simp add: registry_ok_def execute_registry(5,6) [OF assms(1,2)])

lemma canceled_pubs [simp]:
  "canceledTasks (publishStatus bus t c s f m k st) = canceledTasks st"
  "canceledTasks (publishToolOutput bus t c i out a l st) = canceledTasks st"
  "canceledTasks (publishTextContent e bus t c txt st) = canceledTasks st"
  "canceledTasks (publishThought e bus t c txt st) = canceledTasks st"
  "canceledTasks (publishToolUpdate e bus t c d st) = canceledTasks st"
  "canceledTasks (publishFailure e bus t c msg st) = canceledTasks st"
  "canceledTasks (publishCanceled e bus t oc st) = canceledTasks st - {t}"
  "canceledTasks (cancelTask e t bus st) = canceledTasks st - {t}"
  "canceledTasks (finished bus st) = canceledTasks st"
  "canceledTasks (runStreamed th txt st) = canceledTasks st"
  "canceledTasks (announced rc bus st) = canceledTasks st"
  by (simp_all add: pub_defs cancelTask_def runStreamed_def announced_def Let_def
        split: option.splits)

lemma text_item_canceled [simp]:
  "canceledTasks (snd (text_item e bus t c r i txt (bk, st))) = canceledTasks st"
  by (simp add: text_item_def Let_def)

lemma handle_item_canceled:
  "canceledTasks (snd (handle_item e bus t c isC item (bk, st))) = canceledTasks st"
  by (cases item) (simp_all add: Let_def split: prod.splits option.splits)

lemma handle_item_canceled':
  "handle_item e bus t c isC item (bk, st) = (bk', st') \<Longrightarrow> canceledTasks st' = canceledTasks st"
  using handle_item_canceled [of e bus t c isC item bk st] by simp



lemma acquire_thread_canceled [simp]:
  "canceledTasks (snd (acquire_thread e c st)) = canceledTasks st"
  by (simp add: acquire_thread_def Let_def startThread_def split: option.splits)


lemma threadKey_eq [simp]:
  "(threadKey e1 c = threadKey e2 c) = (currentWorkingDir e1 c = currentWorkingDir e2 c)"
  by (simp add: threadKey_def)

text \<open>Every registry the executor can get to has only threads that came from
  \<open>startThread\<close>.\<close>

lemma registry_ok_invariant:
  "registry_ok new_executor"
  "registry_ok st \<Longrightarrow> registry_ok (cancelTask e t bus st)"
  "registry_ok st \<Longrightarrow> registry_ok (execute e rc bus arrivals st)"
proof -
  show "registry_ok new_executor" by (simp add: registry_ok_def new_executor_def)
  show "registry_ok st \<Longrightarrow> registry_ok (cancelTask e t bus st)"
    by (simp add: registry_ok_def cancelTask_frame)
  show "registry_ok st \<Longrightarrow> registry_ok (execute e rc bus arrivals st)"
  proof (cases "rc_taskId rc \<in> canceledTasks st")
    case True
    then show "registry_ok st \<Longrightarrow> ?thesis"
      by (simp add: registry_ok_def execute_def start_run_canceled)
  next
    case False
    show "registry_ok st \<Longrightarrow> ?thesis"
    proof (cases "extract_text (userMessage rc) = []")
      case True
      then show "registry_ok st \<Longrightarrow> ?thesis"
        using False by (simp add: registry_ok_def execute_def start_run_no_text)
    next
      case nonempty: False
      show "registry_ok st \<Longrightarrow> ?thesis"
        by (rule execute_registry_ok [OF False nonempty])
    qed
  qed
qed


lemma new_executor_fields [simp]:
  "threads new_executor = Map.empty" "threadWorkingDirs new_executor = Map.empty"
  "canceledTasks new_executor = {}" "taskContexts new_executor = Map.empty"
  "uuid_count new_executor = 0" "thread_count new_executor = 0" "effects new_executor = []"
  by (simp_all add: new_executor_def)

lemma demo_not_canceled: "''task-1'' \<notin> canceledTasks new_executor"
  by (simp add: new_executor_def)

lemma demo_text: "extract_text (userMessage (demo_rc [TextPart ''Hello''])) = ''Hello''"
  by (simp add: demo_rc_def user_message_def extract_text_def)

lemma demo_rc_ids [simp]:
  "rc_taskId (demo_rc ps) = ''task-1''" "rc_contextId (demo_rc ps) = ''ctx-1''"
  by (simp_all add: demo_rc_def)

lemma is_ws_simps [simp]:
  "is_ws CHR '' ''" "\<not> is_ws CHR ''/''" "\<not> is_ws CHR ''w''" "\<not> is_ws CHR ''k''"
  "\<not> is_ws CHR ''t''" "\<not> is_ws CHR ''m''" "\<not> is_ws CHR ''p''"
  by (simp_all add: is_ws_def)

text \<open>
  Claim C8, amended. After a call of \<open>execute\<close> that reaches the registry, the binding
  key of the context is the context id, a colon and the effective working directory,
  which is: the per-context override as it is (not trimmed) when it is a non-empty string;
  otherwise the working directory of the resolved configuration, trimmed, when that leaves
  a non-empty string; otherwise the current directory of the process.
\<close>

theorem binding_key:
  assumes "rc_taskId rc \<notin> canceledTasks st" and "extract_text (userMessage rc) \<noteq> []"
    and "override = (case getWorkingDirectory e of None \<Rightarrow> None | Some f \<Rightarrow> f (rc_contextId rc))"
    and "configured = workingDirectory (resolveConfig e (rc_contextId rc))"
    and "key = threadWorkingDirs (execute e rc bus arrivals st) (rc_contextId rc)"
  shows "(\<forall>d. override = Some d \<and> d \<noteq> [] \<longrightarrow> key = Some (rc_contextId rc @ '':'' @ d)) \<and>
         (\<forall>w. (override = None \<or> override = Some []) \<and> configured = Some w \<and> trim w \<noteq> [] \<longrightarrow>
              key = Some (rc_contextId rc @ '':'' @ trim w)) \<and>
         ((override = None \<or> override = Some []) \<and>
          (configured = None \<or> (\<exists>w. configured = Some w \<and> trim w = [])) \<longrightarrow>
              key = Some (rc_contextId rc @ '':'' @ cwd e))"
proof -
  have k: "key = Some (threadKey e (rc_contextId rc))"
    using execute_registry(2) [OF assms(1,2)] assms(5) by simp
  have t: "trim [] = []" by (simp add: trim_def)
  show ?thesis
    using assms(3,4) t unfolding k
    by (auto simp add: threadKey_def currentWorkingDir_def workingDir_of_def or_else_def
          truthy_def normalizeWorkingDirectory_def Let_def split: option.splits)
qed

theorem binding_key_witness:
  "''task-1'' \<notin> canceledTasks new_executor \<and>
   extract_text (userMessage (demo_rc [TextPart ''Hello''])) \<noteq> [] \<and>
   trim ''  /work '' = ''/work'' \<and>
   threadWorkingDirs
     (execute (env_with_config_dir ''  /work '') (demo_rc [TextPart ''Hello'']) 0 [] new_executor)
     ''ctx-1'' = Some ''ctx-1:/work''"
proof -
  let ?rc = "demo_rc [TextPart ''Hello'']"
  let ?e = "env_with_config_dir ''  /work ''"
  have h1: "rc_taskId ?rc \<notin> canceledTasks new_executor" by (simp add: demo_not_canceled)
  have h2: "extract_text (userMessage ?rc) \<noteq> []" by (simp add: demo_text)
  have h3: "None = (case getWorkingDirectory ?e of None \<Rightarrow> None | Some f \<Rightarrow> f (rc_contextId ?rc))"
    by (simp add: env_with_config_dir_def demo_env_def)
  have h4: "Some ''  /work '' = workingDirectory (resolveConfig ?e (rc_contextId ?rc))"
    by (simp add: resolveConfig_def env_with_config_dir_def demo_env_def no_overrides_def)
  have w: "trim ''  /work '' = ''/work''" by (simp add: trim_def)
  show ?thesis
    using binding_key [OF h1 h2 h3 h4 refl, of 0 "[]"] h1 h2 w by simp
qed

text \<open>
  Claim C8, as stated, fails: an override with surrounding white space goes into the key
  untrimmed, and an override of white space only is used as the directory instead of
  being treated as absent.
\<close>

theorem override_not_trimmed:
  "threadWorkingDirs
     (execute (env_with_dir '' /tmp '') (demo_rc [TextPart ''Hello'']) 0 [] new_executor)
     ''ctx-1'' = Some ''ctx-1: /tmp '' \<and>
   trim '' /tmp '' = ''/tmp'' \<and>
   threadWorkingDirs
     (execute (env_with_dir '' '') (demo_rc [TextPart ''Hello'']) 0 [] new_executor)
     ''ctx-1'' = Some ''ctx-1: '' \<and>
   trim '' '' = []"
proof -
  let ?rc = "demo_rc [TextPart ''Hello'']"
  have h1: "rc_taskId ?rc \<notin> canceledTasks new_executor" by (simp add: demo_not_canceled)
  have h2: "extract_text (userMessage ?rc) \<noteq> []" by (simp add: demo_text)
  have k: "threadKey (env_with_dir d) ''ctx-1'' = ''ctx-1:'' @ (if d = [] then ''/srv'' else d)" for d
    by (simp add: threadKey_def currentWorkingDir_def workingDir_of_def or_else_def truthy_def
          env_with_dir_def demo_env_def normalizeWorkingDirectory_def resolveConfig_def
          no_overrides_def DEFAULT_CODEX_CONFIG_def Let_def)
  show ?thesis
    using execute_registry(2) [OF h1 h2, of "env_with_dir '' /tmp ''" 0 "[]"]
      execute_registry(2) [OF h1 h2, of "env_with_dir '' ''" 0 "[]"]
    by (simp add: k trim_def)
qed


subsection \<open>Tool updates of one item\<close>

lemma started_updates_append [simp]:
  "started_updates i (xs @ ys) = started_updates i xs + started_updates i ys"
  by (simp add: started_updates_def)

lemma terminal_updates_append [simp]:
  "terminal_updates i (xs @ ys) = terminal_updates i xs + terminal_updates i ys"
  by (simp add: terminal_updates_def)

lemma counts_pubs [simp]:
  "started_updates i (effects (publishStatus bus t c s f None k st)) = started_updates i (effects st)"
  "terminal_updates i (effects (publishStatus bus t c s f None k st)) = terminal_updates i (effects st)"
  "started_updates i (effects (publishToolOutput bus t c j out a l st)) = started_updates i (effects st)"
  "terminal_updates i (effects (publishToolOutput bus t c j out a l st)) = terminal_updates i (effects st)"
  "started_updates i (effects (publishTextContent e bus t c txt st)) = started_updates i (effects st)"
  "terminal_updates i (effects (publishTextContent e bus t c txt st)) = terminal_updates i (effects st)"
  "started_updates i (effects (publishThought e bus t c txt st)) = started_updates i (effects st)"
  "terminal_updates i (effects (publishThought e bus t c txt st)) = terminal_updates i (effects st)"
  "started_updates i (effects (publishFailure e bus t c msg st)) = started_updates i (effects st)"
  "terminal_updates i (effects (publishFailure e bus t c msg st)) = terminal_updates i (effects st)"
  "started_updates i (effects (publishCanceled e bus t oc st)) = started_updates i (effects st)"
  "terminal_updates i (effects (publishCanceled e bus t oc st)) = terminal_updates i (effects st)"
  "started_updates i (effects (cancelTask e t bus st)) = started_updates i (effects st)"
  "terminal_updates i (effects (cancelTask e t bus st)) = terminal_updates i (effects st)"
  "started_updates i (effects (finished bus st)) = started_updates i (effects st)"
  "terminal_updates i (effects (finished bus st)) = terminal_updates i (effects st)"
  by (simp_all add: started_updates_def terminal_updates_def pub_defs cancelTask_def
        agent_message_def Let_def split: option.splits)

lemma counts_tool_update [simp]:
  "started_updates i (effects (publishToolUpdate e bus t c d st)) =
     started_updates i (effects st) + (if is_started i d then 1 else 0)"
  "terminal_updates i (effects (publishToolUpdate e bus t c d st)) =
     terminal_updates i (effects st) + (if is_terminal i d then 1 else 0)"
  by (simp_all add: started_updates_def terminal_updates_def pub_defs agent_message_def)

lemma text_item_counts [simp]:
  "started_updates i (effects (snd (text_item e bus t c r j txt (bk, st)))) = started_updates i (effects st)"
  "terminal_updates i (effects (snd (text_item e bus t c r j txt (bk, st)))) = terminal_updates i (effects st)"
  "sentItemStates (fst (text_item e bus t c r j txt (bk, st))) = sentItemStates bk"
  by (simp_all add: text_item_def Let_def)

lemma case_prod_if:
  "(case (if b then p else q) of (x, y) \<Rightarrow> f x y) =
     (if b then (case p of (x, y) \<Rightarrow> f x y) else (case q of (x, y) \<Rightarrow> f x y))"
  by simp

lemma state_literals [simp]:
  "truthy (Some ''started'')" "truthy (Some ''completed'')" "\<not> truthy None"
  by (simp_all add: truthy_def)

lemma handle_item_started:
  "started_updates i (effects (snd (handle_item e bus t c isC item (bk, st)))) =
     started_updates i (effects st) +
       (if tool_item_id item = Some i \<and> \<not> truthy (phase bk i) then 1 else 0)"
proof (cases item)
  case (CommandExecution j cmd out ec status)
  then show ?thesis by (simp add: Let_def phase_def case_prod_if)
next
  case (McpToolCall j server tool args result err status)
  then show ?thesis by (simp add: Let_def phase_def case_prod_if split: option.splits)
qed simp_all

lemma handle_item_terminal:
  "terminal_updates i (effects (snd (handle_item e bus t c isC item (bk, st)))) =
     terminal_updates i (effects st) +
       (if tool_item_id item = Some i \<and> isC \<and> phase bk i \<noteq> Some ''completed'' \<and>
           reports_outcome (ItemEvent ItemCompleted item) then 1 else 0)"
proof (cases item)
  case (CommandExecution j cmd out ec status)
  then show ?thesis by (simp add: Let_def phase_def case_prod_if)
next
  case (McpToolCall j server tool args result err status)
  then show ?thesis by (simp add: Let_def phase_def case_prod_if split: option.splits)
qed simp_all

lemma handle_item_phase:
  "phase (fst (handle_item e bus t c isC item (bk, st))) i =
     (if tool_item_id item = Some i then next_phase isC (phase bk i) else phase bk i)"
proof (cases item)
  case (CommandExecution j cmd out ec status)
  then show ?thesis by (simp add: Let_def phase_def next_phase_def case_prod_if)
next
  case (McpToolCall j server tool args result err status)
  then show ?thesis by (simp add: Let_def phase_def next_phase_def case_prod_if)
qed (simp_all add: phase_def)

lemma loop_body_Return:
  assumes "t \<notin> canceledTasks st" and "loop_body e bus t c ev bk st = Return st'"
  shows "started_updates i (effects st') = started_updates i (effects st)"
    and "terminal_updates i (effects st') = terminal_updates i (effects st)"
    and "dispatched (Event ev # rest) = []"
  using assms by (auto simp add: loop_body_def split: thread_event.splits prod.splits)

lemma loop_body_Continue:
  assumes "t \<notin> canceledTasks st" and "loop_body e bus t c ev bk st = Continue bk' st'"
  shows "started_updates i (effects st') =
           started_updates i (effects st) +
             (if tool_event i ev \<and> \<not> truthy (phase bk i) then 1 else 0)"
    and "terminal_updates i (effects st') =
           terminal_updates i (effects st) +
             (if completes i ev \<and> phase bk i \<noteq> Some ''completed'' \<and> reports_outcome ev
              then 1 else 0)"
    and "phase bk' i =
           (if tool_event i ev then next_phase (completes i ev) (phase bk i) else phase bk i)"
    and "t \<notin> canceledTasks st'"
    and "dispatched (Event ev # rest) = ev # dispatched rest"
proof -
  show "t \<notin> canceledTasks st'"
    using assms handle_item_canceled'
    by (auto simp add: loop_body_def split: thread_event.splits prod.splits)
  show "dispatched (Event ev # rest) = ev # dispatched rest"
    using assms by (cases ev) (simp_all add: loop_body_def)
  show "started_updates i (effects st') =
           started_updates i (effects st) +
             (if tool_event i ev \<and> \<not> truthy (phase bk i) then 1 else 0)"
  proof (cases ev)
    case (ItemEvent ph item)
    then have "st' = snd (handle_item e bus t c (ph = ItemCompleted) item (bk, st))"
      using assms by (simp add: loop_body_def split: prod.splits)
    then show ?thesis using ItemEvent by (simp add: handle_item_started)
  qed (use assms in \<open>auto simp add: loop_body_def\<close>)
  show "terminal_updates i (effects st') =
           terminal_updates i (effects st) +
             (if completes i ev \<and> phase bk i \<noteq> Some ''completed'' \<and> reports_outcome ev
              then 1 else 0)"
  proof (cases ev)
    case (ItemEvent ph item)
    then have "st' = snd (handle_item e bus t c (ph = ItemCompleted) item (bk, st))"
      using assms by (simp add: loop_body_def split: prod.splits)
    then show ?thesis
      using ItemEvent
      by (cases ph) (simp_all add: handle_item_terminal)
  qed (use assms in \<open>auto simp add: loop_body_def\<close>)
  show "phase bk' i =
           (if tool_event i ev then next_phase (completes i ev) (phase bk i) else phase bk i)"
  proof (cases ev)
    case (ItemEvent ph item)
    then have "bk' = fst (handle_item e bus t c (ph = ItemCompleted) item (bk, st))"
      using assms by (simp add: loop_body_def split: prod.splits)
    then show ?thesis
      using ItemEvent by (cases ph) (simp_all add: handle_item_phase)
  qed (use assms in \<open>auto simp add: loop_body_def\<close>)
qed

lemma truthy_next_phase [simp]: "truthy (next_phase b l)"
  by (simp add: next_phase_def truthy_def split: option.splits)

lemma next_phase_completed [simp]:
  "next_phase b (Some ''completed'') = Some ''completed''"
  "l \<noteq> Some ''completed'' \<Longrightarrow> next_phase True l = Some ''completed''"
  "l \<noteq> Some ''completed'' \<Longrightarrow> next_phase False l \<noteq> Some ''completed''"
  by (simp_all add: next_phase_def)

lemma completes_tool_event: "completes i ev \<Longrightarrow> tool_event i ev"
proof (cases ev)
  case (ItemEvent ph item)
  then show "completes i ev \<Longrightarrow> tool_event i ev" by (cases ph) simp_all
qed simp_all

lemma started_once_seen:
  "truthy (phase bk i) \<Longrightarrow> t \<notin> canceledTasks st \<Longrightarrow>
   started_updates i (effects (consume e bus t c arrs bk st)) = started_updates i (effects st)"
proof (induction arrs arbitrary: bk st)
  case Nil
  show ?case by simp
next
  case (Cons a arrs)
  show ?case
  proof (cases a)
    case (CancelCall t' b)
    then show ?thesis
      using Cons.IH [of bk "cancelTask e t' b st"] Cons.prems by simp
  next
    case (Event ev)
    show ?thesis
    proof (cases "loop_body e bus t c ev bk st")
      case (Return st')
      then show ?thesis
        using Event loop_body_Return(1) [OF Cons.prems(2) Return] by simp
    next
      case (Continue bk' st')
      note step = loop_body_Continue [OF Cons.prems(2) Continue]
      have "truthy (phase bk' i)" using step(3) Cons.prems(1) by simp
      then show ?thesis
        using Event Continue Cons.IH [of bk' st'] step(1,4) Cons.prems(1) by simp
    qed
  qed
qed

lemma started_first_sight:
  "\<not> truthy (phase bk i) \<Longrightarrow> t \<notin> canceledTasks st \<Longrightarrow>
   \<exists>ev \<in> set (dispatched arrs). tool_event i ev \<Longrightarrow>
   started_updates i (effects (consume e bus t c arrs bk st)) = Suc (started_updates i (effects st))"
proof (induction arrs arbitrary: bk st)
  case Nil
  then show ?case by simp
next
  case (Cons a arrs)
  show ?case
  proof (cases a)
    case (CancelCall t' b)
    then show ?thesis
      using Cons.IH [of bk "cancelTask e t' b st"] Cons.prems by simp
  next
    case (Event ev)
    show ?thesis
    proof (cases "loop_body e bus t c ev bk st")
      case (Return st')
      then show ?thesis
        using Event loop_body_Return(3) [OF Cons.prems(2) Return, of arrs] Cons.prems(3) by simp
    next
      case (Continue bk' st')
      note step = loop_body_Continue [OF Cons.prems(2) Continue]
      note d = loop_body_Continue(5) [OF Cons.prems(2) Continue, of arrs]
      show ?thesis
      proof (cases "tool_event i ev")
        case True
        then have "truthy (phase bk' i)" using step(3) by simp
        then show ?thesis
          using Event Continue True started_once_seen [of bk' i t st' e bus c arrs] step(1,4)
            Cons.prems(1) by simp
      next
        case False
        then have "\<exists>ev \<in> set (dispatched arrs). tool_event i ev"
          using Cons.prems(3) Event d by auto
        then show ?thesis
          using Event Continue False Cons.IH [of bk' st'] step(1,3,4) Cons.prems(1) by simp
      qed
    qed
  qed
qed

lemma terminal_once_completed:
  "phase bk i = Some ''completed'' \<Longrightarrow> t \<notin> canceledTasks st \<Longrightarrow>
   terminal_updates i (effects (consume e bus t c arrs bk st)) = terminal_updates i (effects st)"
proof (induction arrs arbitrary: bk st)
  case Nil
  show ?case by simp
next
  case (Cons a arrs)
  show ?case
  proof (cases a)
    case (CancelCall t' b)
    then show ?thesis
      using Cons.IH [of bk "cancelTask e t' b st"] Cons.prems by simp
  next
    case (Event ev)
    show ?thesis
    proof (cases "loop_body e bus t c ev bk st")
      case (Return st')
      then show ?thesis
        using Event loop_body_Return(2) [OF Cons.prems(2) Return] by simp
    next
      case (Continue bk' st')
      note step = loop_body_Continue [OF Cons.prems(2) Continue]
      have "phase bk' i = Some ''completed''" using step(3) Cons.prems(1) by simp
      then show ?thesis
        using Event Continue Cons.IH [of bk' st'] step(2,4) Cons.prems(1) by simp
    qed
  qed
qed

lemma terminal_first_completion:
  "phase bk i \<noteq> Some ''completed'' \<Longrightarrow> t \<notin> canceledTasks st \<Longrightarrow>
   \<exists>ev \<in> set (dispatched arrs). completes i ev \<Longrightarrow>
   \<forall>ev \<in> set (dispatched arrs). completes i ev \<longrightarrow> reports_outcome ev \<Longrightarrow>
   terminal_updates i (effects (consume e bus t c arrs bk st)) = Suc (terminal_updates i (effects st))"
proof (induction arrs arbitrary: bk st)
  case Nil
  then show ?case by simp
next
  case (Cons a arrs)
  show ?case
  proof (cases a)
    case (CancelCall t' b)
    then show ?thesis
      using Cons.IH [of bk "cancelTask e t' b st"] Cons.prems by simp
  next
    case (Event ev)
    show ?thesis
    proof (cases "loop_body e bus t c ev bk st")
      case (Return st')
      then show ?thesis
        using Event loop_body_Return(3) [OF Cons.prems(2) Return, of arrs] Cons.prems(3) by simp
    next
      case (Continue bk' st')
      note step = loop_body_Continue [OF Cons.prems(2) Continue]
      note d = loop_body_Continue(5) [OF Cons.prems(2) Continue, of arrs]
      note te = completes_tool_event [of i ev]
      show ?thesis
      proof (cases "completes i ev")
        case True
        then have r: "reports_outcome ev" using Cons.prems(4) Event d by simp
        have "phase bk' i = Some ''completed''"
          using step(3) True te Cons.prems(1) by simp
        then show ?thesis
          using Event Continue True r terminal_once_completed [of bk' i t st' e bus c arrs]
            step(2,4) Cons.prems(1) by simp
      next
        case False
        then have ex: "\<exists>ev \<in> set (dispatched arrs). completes i ev"
          and al: "\<forall>ev \<in> set (dispatched arrs). completes i ev \<longrightarrow> reports_outcome ev"
          using Cons.prems(3,4) Event d by auto
        have "phase bk' i \<noteq> Some ''completed''"
          using step(3) False Cons.prems(1) by simp
        then show ?thesis
          using Event Continue False Cons.IH [of bk' st', OF _ step(4) ex al] step(2) by simp
      qed
    qed
  qed
qed

lemma counts_before_loop [simp]:
  "started_updates i (effects (announced rc bus st)) = started_updates i (effects st)"
  "terminal_updates i (effects (announced rc bus st)) = terminal_updates i (effects st)"
  "started_updates i (effects (snd (acquire_thread e c st))) = started_updates i (effects st)"
  "terminal_updates i (effects (snd (acquire_thread e c st))) = terminal_updates i (effects st)"
  "started_updates i (effects (runStreamed th txt st)) = started_updates i (effects st)"
  "terminal_updates i (effects (runStreamed th txt st)) = terminal_updates i (effects st)"
  by (simp_all add: started_updates_def terminal_updates_def announced_def shape_defs
        acquire_thread_def startThread_def runStreamed_def Let_def split: option.splits)

text \<open>
  Claim C4, amended. Take a call of \<open>execute\<close> that reaches the stream (its task is not
  marked canceled, its input text is not empty) and an item id \<open>i\<close>. If among the events
  up to the first turn.failed there is an item.completed of a command execution or MCP
  tool call with id \<open>i\<close>, and every such item.completed of an MCP tool call carries an
  error or a truthy result, then the call publishes exactly one tool update of first sighting
  (started) and exactly one tool update of completion (completed or failed) for \<open>i\<close>,
  however many other events for \<open>i\<close> come before or after and whatever calls of
  \<open>cancelTask\<close> arrive in between.
\<close>

theorem one_started_one_terminal:
  assumes "rc_taskId rc \<notin> canceledTasks st" and "extract_text (userMessage rc) \<noteq> []"
    and "\<exists>ev \<in> set (dispatched arrivals). completes i ev"
    and "\<forall>ev \<in> set (dispatched arrivals). completes i ev \<longrightarrow> reports_outcome ev"
  shows "started_updates i (effects (execute e rc bus arrivals st)) =
           Suc (started_updates i (effects st)) \<and>
         terminal_updates i (effects (execute e rc bus arrivals st)) =
           Suc (terminal_updates i (effects st))"
proof -
  let ?st1 = "runStreamed (fst (acquire_thread e (rc_contextId rc) (announced rc bus st)))
          (extract_text (userMessage rc))
          (snd (acquire_thread e (rc_contextId rc) (announced rc bus st)))"
  have c: "rc_taskId rc \<notin> canceledTasks ?st1" using assms(1) by simp
  have p: "phase no_bookkeeping i = None" by (simp add: phase_def no_bookkeeping_def)
  have te: "\<exists>ev \<in> set (dispatched arrivals). tool_event i ev"
  proof -
    obtain ev where "ev \<in> set (dispatched arrivals)" and "completes i ev"
      using assms(3) by blast
    moreover have "tool_event i ev"
      using \<open>completes i ev\<close> by (rule completes_tool_event)
    ultimately show ?thesis by blast
  qed
  show ?thesis
    unfolding execute_continue [OF assms(1,2)]
    using started_first_sight [of no_bookkeeping i "rc_taskId rc" ?st1 arrivals e bus "rc_contextId rc", OF _ c te]
      terminal_first_completion [of no_bookkeeping i "rc_taskId rc" ?st1 arrivals e bus "rc_contextId rc", OF _ c assms(3,4)]
    by (simp add: p)
qed

lemma counts_Nil [simp]: "started_updates i [] = 0" "terminal_updates i [] = 0"
  by (simp_all add: started_updates_def terminal_updates_def)

theorem one_started_one_terminal_witness:
  "''task-1'' \<notin> canceledTasks new_executor \<and>
   extract_text (userMessage (demo_rc [TextPart ''Hello''])) \<noteq> [] \<and>
   dispatched [Event (ItemEvent ItemStarted (shell_command [] None ''in_progress'')),
               Event (ItemEvent ItemUpdated (shell_command ''a'' None ''in_progress'')),
               CancelCall ''task-2'' 1,
               Event (ItemEvent ItemUpdated (shell_command ''ab'' None ''in_progress'')),
               Event (ItemEvent ItemCompleted (shell_command ''ab'' (Some 0) ''completed'')),
               Event (TurnFailed ''late''),
               Event (ItemEvent ItemCompleted (shell_command ''ab'' (Some 0) ''completed''))] =
     [ItemEvent ItemStarted (shell_command [] None ''in_progress''),
      ItemEvent ItemUpdated (shell_command ''a'' None ''in_progress''),
      ItemEvent ItemUpdated (shell_command ''ab'' None ''in_progress''),
      ItemEvent ItemCompleted (shell_command ''ab'' (Some 0) ''completed'')] \<and>
   started_updates ''cmd-1''
     (effects (execute demo_env (demo_rc [TextPart ''Hello'']) 0
        [Event (ItemEvent ItemStarted (shell_command [] None ''in_progress'')),
         Event (ItemEvent ItemUpdated (shell_command ''a'' None ''in_progress'')),
         CancelCall ''task-2'' 1,
         Event (ItemEvent ItemUpdated (shell_command ''ab'' None ''in_progress'')),
         Event (ItemEvent ItemCompleted (shell_command ''ab'' (Some 0) ''completed'')),
         Event (TurnFailed ''late''),
         Event (ItemEvent ItemCompleted (shell_command ''ab'' (Some 0) ''completed''))]
        new_executor)) = 1 \<and>
   terminal_updates ''cmd-1''
     (effects (execute demo_env (demo_rc [TextPart ''Hello'']) 0
        [Event (ItemEvent ItemStarted (shell_command [] None ''in_progress'')),
         Event (ItemEvent ItemUpdated (shell_command ''a'' None ''in_progress'')),
         CancelCall ''task-2'' 1,
         Event (ItemEvent ItemUpdated (shell_command ''ab'' None ''in_progress'')),
         Event (ItemEvent ItemCompleted (shell_command ''ab'' (Some 0) ''completed'')),
         Event (TurnFailed ''late''),
         Event (ItemEvent ItemCompleted (shell_command ''ab'' (Some 0) ''completed''))]
        new_executor)) = 1"
proof -
  let ?rc = "demo_rc [TextPart ''Hello'']"
  let ?arrs = "[Event (ItemEvent ItemStarted (shell_command [] None ''in_progress'')),
         Event (ItemEvent ItemUpdated (shell_command ''a'' None ''in_progress'')),
         CancelCall ''task-2'' 1,
         Event (ItemEvent ItemUpdated (shell_command ''ab'' None ''in_progress'')),
         Event (ItemEvent ItemCompleted (shell_command ''ab'' (Some 0) ''completed'')),
         Event (TurnFailed ''late''),
         Event (ItemEvent ItemCompleted (shell_command ''ab'' (Some 0) ''completed''))]"
  have h1: "rc_taskId ?rc \<notin> canceledTasks new_executor" by simp
  have h2: "extract_text (userMessage ?rc) \<noteq> []" by (simp add: demo_text)
  have h3: "\<exists>ev \<in> set (dispatched ?arrs). completes ''cmd-1'' ev"
    by (simp add: shell_command_def)
  have h4: "\<forall>ev \<in> set (dispatched ?arrs). completes ''cmd-1'' ev \<longrightarrow> reports_outcome ev"
    by (simp add: shell_command_def)
  show ?thesis
    using one_started_one_terminal [OF h1 h2 h3 h4, of demo_env 0] h2
    by simp
qed

text \<open>
  Claim C4, as stated, fails: an MCP tool call whose item.completed carries neither an
  error nor a result gets its started update and no terminal one (the completion branch
  publishes only under \<open>item.error\<close> or \<open>item.result\<close>).
\<close>

theorem mcp_call_without_outcome:
  "started_updates ''mcp-1''
     (effects (execute demo_env (demo_rc [TextPart ''Hello'']) 0
        [Event (ItemEvent ItemStarted (mcp_call None None ''in_progress'')),
         Event (ItemEvent ItemCompleted (mcp_call None None ''completed''))]
        new_executor)) = 1 \<and>
   terminal_updates ''mcp-1''
     (effects (execute demo_env (demo_rc [TextPart ''Hello'']) 0
        [Event (ItemEvent ItemStarted (mcp_call None None ''in_progress'')),
         Event (ItemEvent ItemCompleted (mcp_call None None ''completed''))]
        new_executor)) = 0"
proof -
  let ?rc = "demo_rc [TextPart ''Hello'']"
  have h1: "rc_taskId ?rc \<notin> canceledTasks new_executor" by simp
  have h2: "extract_text (userMessage ?rc) \<noteq> []" by (simp add: demo_text)
  show ?thesis
    unfolding execute_continue [OF h1 h2]
    by (simp add: loop_body_def mcp_call_def Let_def case_prod_if no_bookkeeping_def)
qed

subsection \<open>Text deltas of one item\<close>

lemma text_item_eq:
  "text_item e bus t c r j body (bk, st) =
     (if drop (sent bk j) body = [] then (bk, st)
      else (bk\<lparr>sentTextLengths := (sentTextLengths bk)(j \<mapsto> length body)\<rparr>,
            if r then publishThought e bus t c (drop (sent bk j) body) st
            else publishTextContent e bus t c (drop (sent bk j) body) st))"
  by (auto simp add: text_item_def sent_def Let_def)

lemma new_effects_pubs:
  "new_effects st (publishTextContent e bus t c d st) =
     [Publish bus (PStatus (message_update (randomUUID e (uuid_count st)) t c (TextPart d) ''text-content''))]"
  "new_effects st (publishThought e bus t c d st) =
     [Publish bus (PStatus (message_update (randomUUID e (uuid_count st)) t c (DataPart (ThoughtData d)) ''thought''))]"
  "new_effects st st = []"
  by (simp_all add: new_effects_def pub_defs shape_defs)

lemma delta_of_message [simp]:
  "delta_of (Publish bus (PStatus (message_update mid t c (TextPart d) ''text-content''))) = Some d"
  "delta_of (Publish bus (PStatus (message_update mid t c (DataPart (ThoughtData d)) ''thought''))) = Some d"
  by (simp_all add: message_update_def agent_message_def)


declare delta_of.simps(1) [simp del]

lemma sent_text_item:
  "sentTextLengths (fst (text_item e bus t c r j body (bk, st))) i =
     (if j = i \<and> drop (sent bk j) body \<noteq> [] then Some (length body) else sentTextLengths bk i)"
  by (simp add: text_item_eq)

lemma handle_item_sent:
  "text_of i (ItemEvent ph item) = None \<Longrightarrow> \<not> output_key_clash i (ItemEvent ph item) \<Longrightarrow>
   sentTextLengths (fst (handle_item e bus t c isC item (bk, st))) i = sentTextLengths bk i"
proof (cases item)
  case (CommandExecution j cmd out ec status)
  then show "\<not> output_key_clash i (ItemEvent ph item) \<Longrightarrow> ?thesis"
    by (simp add: Let_def case_prod_if)
next
  case (McpToolCall j server tool args result err status)
  then show ?thesis by (simp add: Let_def case_prod_if)
next
  case (AgentMessage j body)
  then show "text_of i (ItemEvent ph item) = None \<Longrightarrow> ?thesis"
    by (simp add: sent_text_item split: if_splits)
next
  case (Reasoning j body)
  then show "text_of i (ItemEvent ph item) = None \<Longrightarrow> ?thesis"
    by (simp add: sent_text_item split: if_splits)
qed simp_all

lemma loop_body_other:
  assumes "t \<notin> canceledTasks st" and "loop_body e bus t c ev bk st = Continue bk' st'"
    and "text_of i ev = None" and "\<not> output_key_clash i ev"
  shows "sent bk' i = sent bk i"
proof (cases ev)
  case (ItemEvent ph item)
  then have "bk' = fst (handle_item e bus t c (ph = ItemCompleted) item (bk, st))"
    using assms(1,2) by (simp add: loop_body_def split: prod.splits)
  then show ?thesis
    using handle_item_sent [of i ph item e bus t c "ph = ItemCompleted" bk st] assms(3,4) ItemEvent
    by (simp add: sent_def)
qed (use assms in \<open>auto simp add: loop_body_def\<close>)

lemma loop_body_text:
  assumes "t \<notin> canceledTasks st" and "loop_body e bus t c ev bk st = Continue bk' st'"
    and "text_of i ev = Some body"
  shows "segment_deltas (new_effects st st') =
           (if drop (sent bk i) body = [] then [] else [drop (sent bk i) body])"
    and "sent bk' i = (if drop (sent bk i) body = [] then sent bk i else length body)"
proof -
  obtain ph r where ev: "ev = ItemEvent ph (if r then Reasoning i body else AgentMessage i body)"
  proof (cases ev)
    case (ItemEvent ph item)
    show ?thesis
    proof (cases item)
      case (AgentMessage j b)
      then show ?thesis
        using assms(3) ItemEvent that [where ph = ph and r = False] by (simp split: if_splits)
    next
      case (Reasoning j b)
      then show ?thesis
        using assms(3) ItemEvent that [where ph = ph and r = True] by (simp split: if_splits)
    qed (use assms(3) ItemEvent in simp_all)
  qed (use assms(3) in simp_all)
  have r: "(bk', st') = text_item e bus t c r i body (bk, st)"
    using assms(1,2) ev by (cases r) (simp_all add: loop_body_def split: prod.splits)
  show "segment_deltas (new_effects st st') =
           (if drop (sent bk i) body = [] then [] else [drop (sent bk i) body])"
    using r by (auto simp add: text_item_eq new_effects_pubs split: if_splits)
  show "sent bk' i = (if drop (sent bk i) body = [] then sent bk i else length body)"
    using r by (auto simp add: text_item_eq sent_def split: if_splits)
qed

lemma loop_body_Return_text:
  assumes "t \<notin> canceledTasks st" and "loop_body e bus t c ev bk st = Return st'"
  shows "text_of i ev = None"
  using assms by (auto simp add: loop_body_def split: thread_event.splits prod.splits)

lemma growing_Cons: "growing (x # xs) \<Longrightarrow> growing xs"
  by (cases xs) simp_all

lemma prefix_rebuild: "prefix cur body \<Longrightarrow> cur @ drop (length cur) body = body"
  by (auto simp add: prefix_def)

lemma prefix_no_delta: "prefix cur body \<Longrightarrow> drop (length cur) body = [] \<Longrightarrow> body = cur"
  by (auto simp add: prefix_def)

lemma trace_deltas:
  "t \<notin> canceledTasks st \<Longrightarrow> sent bk i = length cur \<Longrightarrow>
   growing (cur # observed_texts i (dispatched arrs)) \<Longrightarrow>
   \<forall>ev \<in> set (dispatched arrs). \<not> output_key_clash i ev \<Longrightarrow>
   cur @ concat (item_deltas i (trace e bus t c arrs bk st)) =
     last (cur # observed_texts i (dispatched arrs))"
proof (induction arrs arbitrary: bk st cur)
  case Nil
  show ?case by simp
next
  case (Cons a arrs)
  show ?case
  proof (cases a)
    case (CancelCall t' b)
    then show ?thesis
      using Cons.IH [where st = "cancelTask e t' b st" and bk = bk and cur = cur] Cons.prems by simp
  next
    case (Event ev)
    show ?thesis
    proof (cases "loop_body e bus t c ev bk st")
      case (Return st')
      then show ?thesis
        using Event loop_body_Return(3) [OF Cons.prems(1) Return, of arrs]
          loop_body_Return_text [OF Cons.prems(1) Return, where i = i] by simp
    next
      case (Continue bk' st')
      note d = loop_body_Continue(5) [OF Cons.prems(1) Continue, of arrs]
      note nc = loop_body_Continue(4) [OF Cons.prems(1) Continue]
      have clash: "\<forall>ev \<in> set (dispatched arrs). \<not> output_key_clash i ev"
        and here: "\<not> output_key_clash i ev"
        using Cons.prems(4) Event d by simp_all
      show ?thesis
      proof (cases "text_of i ev")
        case None
        have s: "sent bk' i = length cur"
          using loop_body_other [OF Cons.prems(1) Continue None here] Cons.prems(2) by simp
        have g: "growing (cur # observed_texts i (dispatched arrs))"
          using Cons.prems(3) Event d None by simp
        show ?thesis
          using Cons.IH [OF nc s g clash] Event Continue None d by simp
      next
        case (Some body)
        note step = loop_body_text [OF Cons.prems(1) Continue Some]
        have p: "prefix cur body" and g: "growing (body # observed_texts i (dispatched arrs))"
          using Cons.prems(3) Event d Some by simp_all
        have s: "sent bk' i = length body"
          using step(2) p prefix_no_delta [of cur body] Cons.prems(2) by auto
        have here_delta: "cur @ concat (segment_deltas (new_effects st st')) = body"
          using step(1) p prefix_rebuild [of cur body] prefix_no_delta [of cur body] Cons.prems(2)
          by auto
        have "cur @ concat (item_deltas i (trace e bus t c (a # arrs) bk st)) =
              (cur @ concat (segment_deltas (new_effects st st'))) @
                concat (item_deltas i (trace e bus t c arrs bk' st'))"
          using Event Continue Some by simp
        also have "\<dots> = body @ concat (item_deltas i (trace e bus t c arrs bk' st'))"
          using here_delta by simp
        also have "\<dots> = last (body # observed_texts i (dispatched arrs))"
          using Cons.IH [OF nc s g clash] .
        also have "\<dots> = last (cur # observed_texts i (dispatched (a # arrs)))"
          using Event d Some by simp
        finally show ?thesis .
      qed
    qed
  qed
qed


lemma loop_body_Return_failed:
  assumes "t \<notin> canceledTasks st" and "loop_body e bus t c ev bk st = Return st'"
  shows "\<exists>msg. ev = TurnFailed msg"
  using assms by (auto simp add: loop_body_def split: thread_event.splits prod.splits)

lemma text_item_segment:
  "new_effects st (snd (text_item e bus t c r j body (bk, st))) = [] \<or>
   (\<exists>mid d. d \<noteq> [] \<and>
      new_effects st (snd (text_item e bus t c r j body (bk, st))) =
        [Publish bus (PStatus (message_update mid t c
           (if r then DataPart (ThoughtData d) else TextPart d)
           (if r then ''thought'' else ''text-content'')))])"
proof (cases "drop (sent bk j) body = []")
  case True
  then show ?thesis by (simp add: text_item_eq new_effects_pubs)
next
  case False
  then have "False \<or> (drop (sent bk j) body \<noteq> [] \<and>
      new_effects st (snd (text_item e bus t c r j body (bk, st))) =
        [Publish bus (PStatus (message_update (randomUUID e (uuid_count st)) t c
           (if r then DataPart (ThoughtData (drop (sent bk j) body))
            else TextPart (drop (sent bk j) body))
           (if r then ''thought'' else ''text-content'')))])"
    by (simp add: text_item_eq new_effects_pubs)
  then show ?thesis by blast
qed

lemma trace_agent_segments:
  "(Event (ItemEvent ph (AgentMessage j body)), seg) \<in> set (trace e bus t c arrs bk st) \<Longrightarrow>
   t \<notin> canceledTasks st \<Longrightarrow>
   seg = [] \<or>
   (\<exists>mid d. d \<noteq> [] \<and>
      seg = [Publish bus (PStatus (message_update mid t c (TextPart d) ''text-content''))])"
proof (induction arrs arbitrary: bk st)
  case Nil
  then show ?case by simp
next
  case (Cons a arrs)
  show ?case
  proof (cases a)
    case (CancelCall t' b)
    then show ?thesis
      using Cons.IH [where st = "cancelTask e t' b st" and bk = bk] Cons.prems by simp
  next
    case (Event ev)
    show ?thesis
    proof (cases "loop_body e bus t c ev bk st")
      case (Return st')
      then show ?thesis
        using Event Cons.prems loop_body_Return_failed [OF Cons.prems(2) Return] by auto
    next
      case (Continue bk' st')
      note nc = loop_body_Continue(4) [OF Cons.prems(2) Continue]
      consider (head) "ev = ItemEvent ph (AgentMessage j body)" "seg = new_effects st st'"
        | (tail) "(Event (ItemEvent ph (AgentMessage j body)), seg) \<in> set (trace e bus t c arrs bk' st')"
        using Cons.prems(1) Event Continue by auto
      then show ?thesis
      proof cases
        case head
        then have "st' = snd (text_item e bus t c False j body (bk, st))"
          using Continue Cons.prems(2) by (simp add: loop_body_def split: prod.splits)
        then show ?thesis
          using text_item_segment [of st e bus t c False j body bk] head(2) by simp
      next
        case tail
        then show ?thesis using Cons.IH [OF tail nc] by simp
      qed
    qed
  qed
qed

lemma trace_reasoning_segments:
  "(Event (ItemEvent ph (Reasoning j body)), seg) \<in> set (trace e bus t c arrs bk st) \<Longrightarrow>
   t \<notin> canceledTasks st \<Longrightarrow>
   seg = [] \<or>
   (\<exists>mid d. d \<noteq> [] \<and>
      seg = [Publish bus (PStatus (message_update mid t c (DataPart (ThoughtData d)) ''thought''))])"
proof (induction arrs arbitrary: bk st)
  case Nil
  then show ?case by simp
next
  case (Cons a arrs)
  show ?case
  proof (cases a)
    case (CancelCall t' b)
    then show ?thesis
      using Cons.IH [where st = "cancelTask e t' b st" and bk = bk] Cons.prems by simp
  next
    case (Event ev)
    show ?thesis
    proof (cases "loop_body e bus t c ev bk st")
      case (Return st')
      then show ?thesis
        using Event Cons.prems loop_body_Return_failed [OF Cons.prems(2) Return] by auto
    next
      case (Continue bk' st')
      note nc = loop_body_Continue(4) [OF Cons.prems(2) Continue]
      consider (head) "ev = ItemEvent ph (Reasoning j body)" "seg = new_effects st st'"
        | (tail) "(Event (ItemEvent ph (Reasoning j body)), seg) \<in> set (trace e bus t c arrs bk' st')"
        using Cons.prems(1) Event Continue by auto
      then show ?thesis
      proof cases
        case head
        then have "st' = snd (text_item e bus t c True j body (bk, st))"
          using Continue Cons.prems(2) by (simp add: loop_body_def split: prod.splits)
        then show ?thesis
          using text_item_segment [of st e bus t c True j body bk] head(2) by simp
      next
        case tail
        then show ?thesis using Cons.IH [OF tail nc] by simp
      qed
    qed
  qed
qed

text \<open>The log only grows.\<close>

lemma grows_pubs [simp]:
  "prefix xs (effects st) \<Longrightarrow> prefix xs (effects (publishStatus bus t c s f m k st))"
  "prefix xs (effects st) \<Longrightarrow> prefix xs (effects (publishToolOutput bus t c j out a l st))"
  "prefix xs (effects st) \<Longrightarrow> prefix xs (effects (publishTextContent e bus t c d st))"
  "prefix xs (effects st) \<Longrightarrow> prefix xs (effects (publishThought e bus t c d st))"
  "prefix xs (effects st) \<Longrightarrow> prefix xs (effects (publishToolUpdate e bus t c p st))"
  "prefix xs (effects st) \<Longrightarrow> prefix xs (effects (publishFailure e bus t c msg st))"
  "prefix xs (effects st) \<Longrightarrow> prefix xs (effects (publishCanceled e bus t oc st))"
  "prefix xs (effects st) \<Longrightarrow> prefix xs (effects (cancelTask e t bus st))"
  "prefix xs (effects st) \<Longrightarrow> prefix xs (effects (finished bus st))"
  by (simp_all add: pub_defs cancelTask_def Let_def split: option.splits)

lemma handle_item_grows:
  "prefix (effects st) (effects (snd (handle_item e bus t c isC item (bk, st))))"
proof (cases item)
  case (CommandExecution j cmd out ec status)
  then show ?thesis by (simp add: Let_def case_prod_if)
next
  case (McpToolCall j server tool args result err status)
  then show ?thesis by (simp add: Let_def case_prod_if split: option.splits)
qed (simp_all add: text_item_eq)

lemma loop_body_grows:
  "loop_body e bus t c ev bk st = Return st' \<Longrightarrow> prefix (effects st) (effects st')"
  "loop_body e bus t c ev bk st = Continue bk' st' \<Longrightarrow> prefix (effects st) (effects st')"
proof -
  have h: "handle_item e bus t c isC item (bk, st) = (bk', st') \<Longrightarrow>
      prefix (effects st) (effects st')" for isC item
    using handle_item_grows [of st e bus t c isC item bk] by simp
  show "loop_body e bus t c ev bk st = Return st' \<Longrightarrow> prefix (effects st) (effects st')"
    by (auto simp add: loop_body_def split: if_splits thread_event.splits prod.splits)
  show "loop_body e bus t c ev bk st = Continue bk' st' \<Longrightarrow> prefix (effects st) (effects st')"
    using h by (auto simp add: loop_body_def split: if_splits thread_event.splits prod.splits)
qed

lemma new_effects_split: "prefix (effects st) (effects st') \<Longrightarrow> effects st' = effects st @ new_effects st st'"
  by (auto simp add: prefix_def new_effects_def)

lemma consume_trace:
  "\<exists>tail. effects (consume e bus t c arrs bk st) =
     effects st @ concat (map snd (trace e bus t c arrs bk st)) @ tail"
proof (induction arrs arbitrary: bk st)
  case Nil
  show ?case by (simp add: pub_defs)
next
  case (Cons a arrs)
  show ?case
  proof (cases a)
    case (CancelCall t' b)
    obtain tail where "effects (consume e bus t c arrs bk (cancelTask e t' b st)) =
        effects (cancelTask e t' b st) @
          concat (map snd (trace e bus t c arrs bk (cancelTask e t' b st))) @ tail"
      using Cons.IH by blast
    then show ?thesis
      using CancelCall new_effects_split [of st "cancelTask e t' b st"] by simp
  next
    case (Event ev)
    show ?thesis
    proof (cases "loop_body e bus t c ev bk st")
      case (Return st')
      then show ?thesis
        using Event new_effects_split [OF loop_body_grows(1) [OF Return]] by simp
    next
      case (Continue bk' st')
      obtain tail where "effects (consume e bus t c arrs bk' st') =
          effects st' @ concat (map snd (trace e bus t c arrs bk' st')) @ tail"
        using Cons.IH by blast
      then show ?thesis
        using Event Continue new_effects_split [OF loop_body_grows(2) [OF Continue]] by simp
    qed
  qed
qed


lemma run_trace_continue:
  "rc_taskId rc \<notin> canceledTasks st \<Longrightarrow> extract_text (userMessage rc) \<noteq> [] \<Longrightarrow>
   run_trace e rc bus arrivals st =
     trace e bus (rc_taskId rc) (rc_contextId rc) arrivals no_bookkeeping
       (runStreamed (fst (acquire_thread e (rc_contextId rc) (announced rc bus st)))
          (extract_text (userMessage rc))
          (snd (acquire_thread e (rc_contextId rc) (announced rc bus st))))"
  by (simp add: run_trace_def start_run_continue)

text \<open>
  Claim C3, amended. Take a call of \<open>execute\<close> that reaches the stream (its task is not
  marked canceled, its input text is not empty) and an item id \<open>i\<close>, such that among the
  events up to the first turn.failed each text observed for \<open>i\<close> (in an agent message or
  a reasoning item) extends the one before, and no command execution has \<open>i\<close> as the key
  of its output (its id followed by \<open>:output\<close>). Then the deltas published for the
  events of \<open>i\<close>, concatenated in publish order, are the last text observed for \<open>i\<close>.
  Moreover every agent message event publishes either nothing or one non-final Working
  message tagged text-content whose text part is a non-empty delta, every reasoning event
  either nothing or one non-final Working message tagged thought whose data is a
  non-empty delta, and the log entries of the events, in order, follow the log of the
  start of the run in the log of \<open>execute\<close>.
\<close>

theorem deltas_rebuild_text:
  assumes "rc_taskId rc \<notin> canceledTasks st" and "extract_text (userMessage rc) \<noteq> []"
    and "growing (observed_texts i (dispatched arrivals))"
    and "\<forall>ev \<in> set (dispatched arrivals). \<not> output_key_clash i ev"
  shows "concat (item_deltas i (run_trace e rc bus arrivals st)) =
           final_text i (dispatched arrivals) \<and>
         (\<forall>ph j body seg.
            (Event (ItemEvent ph (AgentMessage j body)), seg) \<in> set (run_trace e rc bus arrivals st) \<longrightarrow>
            seg = [] \<or>
            (\<exists>mid d. d \<noteq> [] \<and>
               seg = [Publish bus (PStatus (message_update mid (rc_taskId rc) (rc_contextId rc)
                                             (TextPart d) ''text-content''))])) \<and>
         (\<forall>ph j body seg.
            (Event (ItemEvent ph (Reasoning j body)), seg) \<in> set (run_trace e rc bus arrivals st) \<longrightarrow>
            seg = [] \<or>
            (\<exists>mid d. d \<noteq> [] \<and>
               seg = [Publish bus (PStatus (message_update mid (rc_taskId rc) (rc_contextId rc)
                                             (DataPart (ThoughtData d)) ''thought''))])) \<and>
         (\<exists>bk st1 tail.
            start_run e rc bus st = Continue bk st1 \<and>
            effects (execute e rc bus arrivals st) =
              effects st1 @ concat (map snd (run_trace e rc bus arrivals st)) @ tail)"
proof -
  let ?t = "rc_taskId rc" and ?c = "rc_contextId rc"
  let ?st1 = "runStreamed (fst (acquire_thread e ?c (announced rc bus st)))
          (extract_text (userMessage rc)) (snd (acquire_thread e ?c (announced rc bus st)))"
  have rt: "run_trace e rc bus arrivals st = trace e bus ?t ?c arrivals no_bookkeeping ?st1"
    using assms(1,2) by (rule run_trace_continue)
  have nc: "?t \<notin> canceledTasks ?st1" using assms(1) by simp
  have s0: "sent no_bookkeeping i = length ([] :: string)"
    by (simp add: sent_def no_bookkeeping_def)
  have g: "growing ([] # observed_texts i (dispatched arrivals))"
    using assms(3) by (cases "observed_texts i (dispatched arrivals)") simp_all
  have first: "concat (item_deltas i (run_trace e rc bus arrivals st)) =
      final_text i (dispatched arrivals)"
    using trace_deltas [OF nc s0 g assms(4), of e bus ?c] by (simp add: rt final_text_def)
  have second: "\<forall>ph j body seg.
      (Event (ItemEvent ph (AgentMessage j body)), seg) \<in> set (run_trace e rc bus arrivals st) \<longrightarrow>
      seg = [] \<or>
      (\<exists>mid d. d \<noteq> [] \<and>
         seg = [Publish bus (PStatus (message_update mid ?t ?c (TextPart d) ''text-content''))])"
    unfolding rt using trace_agent_segments [OF _ nc] by blast
  have third: "\<forall>ph j body seg.
      (Event (ItemEvent ph (Reasoning j body)), seg) \<in> set (run_trace e rc bus arrivals st) \<longrightarrow>
      seg = [] \<or>
      (\<exists>mid d. d \<noteq> [] \<and>
         seg = [Publish bus (PStatus (message_update mid ?t ?c (DataPart (ThoughtData d)) ''thought''))])"
    unfolding rt using trace_reasoning_segments [OF _ nc] by blast
  obtain tail where "effects (consume e bus ?t ?c arrivals no_bookkeeping ?st1) =
      effects ?st1 @ concat (map snd (trace e bus ?t ?c arrivals no_bookkeeping ?st1)) @ tail"
    using consume_trace by blast
  then have fourth: "\<exists>bk st1 tail.
      start_run e rc bus st = Continue bk st1 \<and>
      effects (execute e rc bus arrivals st) =
        effects st1 @ concat (map snd (run_trace e rc bus arrivals st)) @ tail"
    using start_run_continue [OF assms(1,2), of e bus] execute_continue [OF assms(1,2), of e bus arrivals]
    by (simp add: rt)
  show ?thesis using first second third fourth by (intro conjI)
qed

theorem deltas_rebuild_text_witness:
  "''task-1'' \<notin> canceledTasks new_executor \<and>
   extract_text (userMessage (demo_rc [TextPart ''Hello''])) \<noteq> [] \<and>
   growing (observed_texts ''item-2'' (dispatched streaming_run)) \<and>
   observed_texts ''item-2'' (dispatched streaming_run) =
     [''Streaming'', ''Streaming'', ''Streaming done''] \<and>
   item_deltas ''item-2''
     (run_trace demo_env (demo_rc [TextPart ''Hello'']) 0 streaming_run new_executor) =
     [''Streaming'', '' done''] \<and>
   concat (item_deltas ''item-2''
     (run_trace demo_env (demo_rc [TextPart ''Hello'']) 0 streaming_run new_executor)) =
     ''Streaming done''"
proof -
  let ?rc = "demo_rc [TextPart ''Hello'']"
  have h1: "rc_taskId ?rc \<notin> canceledTasks new_executor" by simp
  have h2: "extract_text (userMessage ?rc) \<noteq> []" by (simp add: demo_text)
  have o: "observed_texts ''item-2'' (dispatched streaming_run) =
     [''Streaming'', ''Streaming'', ''Streaming done'']"
    by (simp add: streaming_run_def)
  have h3: "growing (observed_texts ''item-2'' (dispatched streaming_run))"
    unfolding o by simp
  have h4: "\<forall>ev \<in> set (dispatched streaming_run). \<not> output_key_clash ''item-2'' ev"
    by (simp add: streaming_run_def)
  have d: "item_deltas ''item-2'' (run_trace demo_env ?rc 0 streaming_run new_executor) =
     [''Streaming'', '' done'']"
    by (simp add: run_trace_def start_run_continue demo_text acquire_thread_new announced_def
          runStreamed_def streaming_run_def loop_body_def text_item_eq sent_def
          no_bookkeeping_def new_effects_def pub_defs agent_message_def delta_of.simps)
  show ?thesis
    using deltas_rebuild_text [OF h1 h2 h3 h4, of demo_env 0] h1 h2 h3 o d
    by (simp add: final_text_def)
qed

text \<open>
  Claim C3, as stated, fails: the lengths sent for texts and for command outputs share one
  map, so after a command \<open>cmd-1\<close> has sent three characters of output, an agent message
  whose id is \<open>cmd-1:output\<close> loses the first three characters of its text.
\<close>

theorem shared_length_map_cuts_text:
  "growing (observed_texts ''cmd-1:output'' (dispatched clashing_run)) \<and>
   final_text ''cmd-1:output'' (dispatched clashing_run) = ''hello'' \<and>
   concat (item_deltas ''cmd-1:output''
     (run_trace demo_env (demo_rc [TextPart ''Hello'']) 0 clashing_run new_executor)) = ''lo''"
proof -
  let ?rc = "demo_rc [TextPart ''Hello'']"
  have h1: "rc_taskId ?rc \<notin> canceledTasks new_executor" by simp
  have h2: "extract_text (userMessage ?rc) \<noteq> []" by (simp add: demo_text)
  have d: "item_deltas ''cmd-1:output'' (run_trace demo_env ?rc 0 clashing_run new_executor) = [''lo'']"
    by (simp add: run_trace_def start_run_continue demo_text acquire_thread_new announced_def
          runStreamed_def clashing_run_def shell_command_def loop_body_def text_item_eq sent_def
          no_bookkeeping_def new_effects_def pub_defs agent_message_def delta_of.simps
          Let_def case_prod_if)
  show ?thesis
    using d by (simp add: clashing_run_def shell_command_def final_text_def)
qed

subsection \<open>Cancelling during a run\<close>

text \<open>
  \<open>cancelTask\<close> removes the mark it sets before it returns, so a task that is not marked
  canceled when its stream starts is never found marked by the loop: whatever calls of
  \<open>cancelTask\<close> arrive, the loop gets to every arrival up to the first turn.failed.
\<close>

lemma cancel_call_unseen:
  "t \<notin> canceledTasks st \<Longrightarrow> map fst (trace e bus t c arrs bk st) = reached arrs"
proof (induction arrs arbitrary: bk st)
  case Nil
  show ?case by simp
next
  case (Cons a arrs)
  show ?case
  proof (cases a)
    case (CancelCall t' b)
    then show ?thesis
      using Cons.IH [where st = "cancelTask e t' b st" and bk = bk] Cons.prems by simp
  next
    case (Event ev)
    show ?thesis
    proof (cases "loop_body e bus t c ev bk st")
      case (Return st')
      then show ?thesis
        using Event loop_body_Return_failed [OF Cons.prems Return] by auto
    next
      case (Continue bk' st')
      have "reached (Event ev # arrs) = Event ev # reached arrs"
        using loop_body_Continue(5) [OF Cons.prems Continue, of arrs] by (cases ev) simp_all
      then show ?thesis
        using Event Continue Cons.IH [OF loop_body_Continue(4) [OF Cons.prems Continue]] by simp
    qed
  qed
qed


end
